theory Spec2Isabelle
  imports Main
begin

section \<open>The blog application of \<open>main.py\<close>\<close>

text \<open>
  A shallow embedding of the Flask application in \<open>src/main.py\<close>: the three tables
  (\<open>users\<close>, \<open>blog_posts\<close>, \<open>comments\<close>), the session, the two guards
  \<open>login_required\<close> and \<open>admin_only\<close>, and one function for each route handler.

  Conventions.
  \<^item> A handler takes the database and the session of the request and returns either an
    uncaught exception or HTTP abort (\<open>Inl\<close>) or the database after the commit, the
    session after the request and the response (\<open>Inr\<close>). An \<open>Inl\<close> result leaves the
    stored data as they were: nothing has been committed when the exception is raised.
  \<^item> The forms of \<open>forms.py\<close> are not part of the sources at hand; a form is a record of
    the submitted field data together with the outcome of \<open>validate_on_submit()\<close>.
  \<^item> \<open>generate_password_hash\<close> and \<open>check_password_hash\<close> (werkzeug) are parameters.
  \<^item> The database is SQLite (the default \<open>sqlite:///blog.db\<close> of line 35). Primary keys
    are assigned as SQLite does for an \<open>INTEGER PRIMARY KEY\<close> column: one more than the
    largest key of the table, and 1 in an empty table. An integer bound to a statement
    must fit 64 bits: a lookup by an id of \<open>2\<^sup>6\<^sup>3\<close> or more raises \<open>OverflowError\<close>.
    \<open>String(250)\<close> lengths are not enforced by SQLite.
  \<^item> A string that is only stored and compared is a list of characters. The name of a user
    goes through \<open>str.title()\<close> and is a list of Unicode code points; the tables of the
    Unicode character database that \<open>str.title()\<close> consults are a parameter.
\<close>

subsection \<open>Errors\<close>

datatype error =
    Unauthorized           \<comment> \<open>\<open>abort(401)\<close> of \<open>login_required\<close>\<close>
  | Forbidden              \<comment> \<open>\<open>abort(403)\<close> of \<open>admin_only\<close>\<close>
  | IntegrityError         \<comment> \<open>a \<open>unique=True\<close> column rejected the commit\<close>
  | UnmappedInstanceError  \<comment> \<open>\<open>db.session.delete(None)\<close>\<close>
  | AttributeError         \<comment> \<open>attribute access on \<open>None\<close>, or a value without
                               \<open>_sa_instance_state\<close> given to a relationship\<close>
  | OverflowError          \<comment> \<open>a Python int too large to convert to SQLite INTEGER\<close>
  | OperationalError       \<comment> \<open>the database of \<open>DATABASE_URL\<close> cannot be opened\<close>

subsection \<open>Tables\<close>

type_synonym unicode = "nat list"

record user =
  user_id :: int
  user_email :: string
  user_password :: string
  user_name :: unicode

record blog_post =
  post_id :: int
  post_author_id :: "int option"
  post_title :: string
  post_subtitle :: string
  post_date :: string
  post_body :: string
  post_img_url :: string

record comment =
  comment_id :: int
  comment_author_id :: "int option"
  comment_post_id :: "int option"
  comment_text :: string

text \<open>Each table is the list of its rows, oldest row first.\<close>

record database =
  users :: "user list"
  blog_posts :: "blog_post list"
  comments :: "comment list"

definition create_all :: database where
  "create_all = \<lparr>users = [], blog_posts = [], comments = []\<rparr>"

definition next_id :: "int list \<Rightarrow> int" where
  "next_id ids = fold max ids 0 + 1"

definition User_query_get :: "database \<Rightarrow> int \<Rightarrow> user option" where
  "User_query_get db i = find (\<lambda>u. user_id u = i) (users db)"

definition User_query_filter_by_email_first :: "database \<Rightarrow> string \<Rightarrow> user option" where
  "User_query_filter_by_email_first db e = find (\<lambda>u. user_email u = e) (users db)"

text \<open>
  \<open>BlogPost.query.get(post_id)\<close> binds \<open>post_id\<close> to a \<open>SELECT\<close> by primary key. The
  binding raises for an integer beyond 64 bits; otherwise the row with that key, or
  \<open>None\<close>, is returned. (The \<open><int:post_id>\<close> routes accept every non-negative integer.)
\<close>

definition sqlite_max_integer :: int where
  "sqlite_max_integer = 9223372036854775807"

definition select_post :: "database \<Rightarrow> int \<Rightarrow> blog_post option" where
  "select_post db i = find (\<lambda>p. post_id p = i) (blog_posts db)"

definition BlogPost_query_get :: "database \<Rightarrow> int \<Rightarrow> error + blog_post option" where
  "BlogPost_query_get db i =
     (if sqlite_max_integer < i then Inl OverflowError else Inr (select_post db i))"

definition BlogPost_query_all :: "database \<Rightarrow> blog_post list" where
  "BlogPost_query_all db = blog_posts db"

text \<open>
  \<open>db.session.add(row); db.session.commit()\<close> for each table. \<open>users.email\<close> and
  \<open>blog_posts.title\<close> are declared \<open>unique=True\<close>; the commit of a duplicate raises.
\<close>

definition add_user :: "database \<Rightarrow> string \<Rightarrow> string \<Rightarrow> unicode \<Rightarrow> error + (database \<times> user)" where
  "add_user db e pw n =
     (if e \<in> set (map user_email (users db)) then Inl IntegrityError
      else
        let new_user = \<lparr>user_id = next_id (map user_id (users db)), user_email = e,
                         user_password = pw, user_name = n\<rparr>
        in Inr (db\<lparr>users := users db @ [new_user]\<rparr>, new_user))"

definition add_post ::
  "database \<Rightarrow> int option \<Rightarrow> string \<Rightarrow> string \<Rightarrow> string \<Rightarrow> string \<Rightarrow> string \<Rightarrow> error + database" where
  "add_post db a t st b img d =
     (if t \<in> set (map post_title (blog_posts db)) then Inl IntegrityError
      else
        let new_post = \<lparr>post_id = next_id (map post_id (blog_posts db)), post_author_id = a,
                         post_title = t, post_subtitle = st, post_date = d, post_body = b,
                         post_img_url = img\<rparr>
        in Inr (db\<lparr>blog_posts := blog_posts db @ [new_post]\<rparr>))"

definition add_comment :: "database \<Rightarrow> string \<Rightarrow> int option \<Rightarrow> int option \<Rightarrow> database" where
  "add_comment db txt a p =
     db\<lparr>comments := comments db @
        [\<lparr>comment_id = next_id (map comment_id (comments db)), comment_author_id = a,
          comment_post_id = p, comment_text = txt\<rparr>]\<rparr>"

text \<open>
  The commit of an edited post: the row keeps its place, its id and its date.
\<close>

definition update_post ::
  "database \<Rightarrow> blog_post \<Rightarrow> string \<Rightarrow> string \<Rightarrow> string \<Rightarrow> int option \<Rightarrow> string \<Rightarrow> error + database" where
  "update_post db post t st img a b =
     (if \<exists>q \<in> set (blog_posts db). post_id q \<noteq> post_id post \<and> post_title q = t
      then Inl IntegrityError
      else Inr (db\<lparr>blog_posts :=
             map (\<lambda>q. if post_id q = post_id post
                       then q\<lparr>post_title := t, post_subtitle := st, post_img_url := img,
                              post_author_id := a, post_body := b\<rparr>
                       else q) (blog_posts db)\<rparr>))"

text \<open>
  \<open>db.session.delete(post); db.session.commit()\<close>. The relationship
  \<open>BlogPost.comments\<close> has no delete cascade, so the ORM detaches the comments of the
  post by setting their \<open>post_id\<close> to NULL before it deletes the row.
\<close>

definition session_delete :: "database \<Rightarrow> blog_post option \<Rightarrow> error + database" where
  "session_delete db target =
     (case target of
        None \<Rightarrow> Inl UnmappedInstanceError
      | Some post \<Rightarrow>
          Inr (db\<lparr>blog_posts := filter (\<lambda>q. post_id q \<noteq> post_id post) (blog_posts db),
                   comments := map (\<lambda>c. if comment_post_id c = Some (post_id post)
                                          then c\<lparr>comment_post_id := None\<rparr> else c)
                                   (comments db)\<rparr>))"

subsection \<open>Session and current user\<close>

record session =
  session_user_id :: "int option"
  flashes :: "string list"

definition flash :: "string \<Rightarrow> session \<Rightarrow> session" where
  "flash msg s = s\<lparr>flashes := flashes s @ [msg]\<rparr>"

definition login_user :: "user \<Rightarrow> session \<Rightarrow> session" where
  "login_user u s = s\<lparr>session_user_id := Some (user_id u)\<rparr>"

definition logout_user :: "session \<Rightarrow> session" where
  "logout_user s = s\<lparr>session_user_id := None\<rparr>"

definition load_user :: "database \<Rightarrow> int \<Rightarrow> user option" where
  "load_user db i = User_query_get db i"

text \<open>\<open>current_user\<close>: \<open>None\<close> stands for the anonymous user.\<close>

definition current_user :: "database \<Rightarrow> session \<Rightarrow> user option" where
  "current_user db s = (case session_user_id s of None \<Rightarrow> None | Some i \<Rightarrow> load_user db i)"

definition is_authenticated :: "user option \<Rightarrow> bool" where
  "is_authenticated cu = (cu \<noteq> None)"

subsection \<open>Values given to a relationship attribute\<close>

text \<open>
  \<open>BlogPost.author\<close>, \<open>Comment.comment_author\<close> and \<open>Comment.parent_post\<close> are
  \<open>relationship\<close> attributes. Assigning a mapped object stores its key in the foreign-key
  column, assigning \<open>None\<close> stores NULL, and assigning anything else (a string, the
  anonymous user) raises \<open>AttributeError\<close>: the value has no \<open>_sa_instance_state\<close>.
\<close>

datatype py_value = PyNone | PyStr unicode | PyUser user | PyPost blog_post | PyAnonymous

definition relationship_set :: "py_value \<Rightarrow> error + int option" where
  "relationship_set v =
     (case v of
        PyNone \<Rightarrow> Inr None
      | PyUser u \<Rightarrow> Inr (Some (user_id u))
      | PyPost p \<Rightarrow> Inr (Some (post_id p))
      | PyStr _ \<Rightarrow> Inl AttributeError
      | PyAnonymous \<Rightarrow> Inl AttributeError)"

definition py_current_user :: "user option \<Rightarrow> py_value" where
  "py_current_user cu = (case cu of None \<Rightarrow> PyAnonymous | Some u \<Rightarrow> PyUser u)"

definition py_post :: "blog_post option \<Rightarrow> py_value" where
  "py_post p = (case p of None \<Rightarrow> PyNone | Some q \<Rightarrow> PyPost q)"

subsection \<open>\<open>str.title()\<close>, \<open>str.lower()\<close> and \<open>date.strftime("%B %d, %Y")\<close>\<close>

text \<open>
  \<open>str.title()\<close> and \<open>str.lower()\<close> are CPython's \<open>do_title\<close> and \<open>do_lower\<close>
  (\<open>Objects/unicodeobject.c\<close>). They consult the Unicode character database through four
  functions, which are a parameter here: whether a code point is cased, whether it is
  case-ignorable, and its full title-case and lower-case mappings (up to three code points).
\<close>

record unicode_database =
  IsCased :: "nat \<Rightarrow> bool"
  IsCaseIgnorable :: "nat \<Rightarrow> bool"
  ToTitleFull :: "nat \<Rightarrow> unicode"
  ToLowerFull :: "nat \<Rightarrow> unicode"

text \<open>
  \<open>handle_capital_sigma\<close>: the capital sigma U+03A3 becomes the final sigma U+03C2 when a
  cased code point precedes it, case-ignorable ones skipped, and none follows it likewise.
  \<open>before\<close> holds the code points to the left, nearest first.
\<close>

definition handle_capital_sigma :: "unicode_database \<Rightarrow> unicode \<Rightarrow> unicode \<Rightarrow> nat" where
  "handle_capital_sigma u before after =
     (let final_sigma =
            ((case dropWhile (IsCaseIgnorable u) before of [] \<Rightarrow> False | c # _ \<Rightarrow> IsCased u c)
             \<and> (case dropWhile (IsCaseIgnorable u) after of [] \<Rightarrow> True | c # _ \<Rightarrow> \<not> IsCased u c))
      in if final_sigma then 962 else 963)"

definition lower_ucs4 :: "unicode_database \<Rightarrow> unicode \<Rightarrow> nat \<Rightarrow> unicode \<Rightarrow> unicode" where
  "lower_ucs4 u before c after =
     (if c = 931 then [handle_capital_sigma u before after] else ToLowerFull u c)"

fun do_title :: "unicode_database \<Rightarrow> unicode \<Rightarrow> bool \<Rightarrow> unicode \<Rightarrow> unicode" where
  "do_title u before previous_is_cased [] = []"
| "do_title u before previous_is_cased (c # cs) =
     (if previous_is_cased then lower_ucs4 u before c cs else ToTitleFull u c)
     @ do_title u (c # before) (IsCased u c) cs"

definition title :: "unicode_database \<Rightarrow> unicode \<Rightarrow> unicode" where
  "title u s = do_title u [] False s"

fun do_lower :: "unicode_database \<Rightarrow> unicode \<Rightarrow> unicode \<Rightarrow> unicode" where
  "do_lower u before [] = []"
| "do_lower u before (c # cs) = lower_ucs4 u before c cs @ do_lower u (c # before) cs"

definition lower :: "unicode_database \<Rightarrow> unicode \<Rightarrow> unicode" where
  "lower u s = do_lower u [] s"

text \<open>
  The ASCII range of the database: the cased code points below 128 are the letters, whose
  mappings are the usual ones; no other code point below 128 is changed.
\<close>

definition ascii_upper_letter :: "nat \<Rightarrow> bool" where
  "ascii_upper_letter c = (65 \<le> c \<and> c \<le> 90)"

definition ascii_lower_letter :: "nat \<Rightarrow> bool" where
  "ascii_lower_letter c = (97 \<le> c \<and> c \<le> 122)"

definition ascii_letter :: "nat \<Rightarrow> bool" where
  "ascii_letter c = (ascii_upper_letter c \<or> ascii_lower_letter c)"

definition ascii_upper :: "nat \<Rightarrow> nat" where
  "ascii_upper c = (if ascii_lower_letter c then c - 32 else c)"

definition ascii_lower :: "nat \<Rightarrow> nat" where
  "ascii_lower c = (if ascii_upper_letter c then c + 32 else c)"

definition is_ascii :: "unicode \<Rightarrow> bool" where
  "is_ascii s = list_all (\<lambda>c. c < 128) s"

definition agrees_on_ascii :: "unicode_database \<Rightarrow> bool" where
  "agrees_on_ascii u =
     list_all (\<lambda>c. IsCased u c = ascii_letter c
                  \<and> ToTitleFull u c = [ascii_upper c]
                  \<and> ToLowerFull u c = [ascii_lower c]) [0..<128]"

record date =
  year :: nat
  month :: nat
  day :: nat

definition digit :: "nat \<Rightarrow> char" where
  "digit n = char_of (48 + n mod 10)"

fun decimal :: "nat \<Rightarrow> string" where
  "decimal n = (if n < 10 then [digit n] else decimal (n div 10) @ [digit n])"

definition month_names :: "string list" where
  "month_names = [''January'', ''February'', ''March'', ''April'', ''May'', ''June'', ''July'',
     ''August'', ''September'', ''October'', ''November'', ''December'']"

text \<open>
  \<open>d.strftime("%B %d, %Y")\<close>: the full month name, the day in two digits, the year. A
  \<open>datetime.date\<close> has \<open>1 \<le> month \<le> 12\<close> and \<open>1 \<le> day \<le> 31\<close>.
\<close>

definition strftime :: "date \<Rightarrow> string" where
  "strftime d =
     (if 1 \<le> month d \<and> month d \<le> 12 then month_names ! (month d - 1) else [])
     @ '' '' @ (if day d < 10 then ''0'' else []) @ decimal (day d) @ '', '' @ decimal (year d)"

subsection \<open>Start-up\<close>

text \<open>
  The module level of \<open>main.py\<close>. Lines 35 to 42 read the database URL from the
  environment, with a default, and the secret key with \<open>os.environ.get('SECRET_KEY')\<close>,
  which is \<open>None\<close> for a missing variable. Lines 135 and 136 call \<open>db.create_all()\<close>
  unless a file named \<open>sqlite:///blog.db\<close> exists. \<open>db.create_all()\<close> opens the database
  of the configured URL, which can fail, and creates the tables that are missing; the rows
  of the tables that exist are kept. Nothing at module level reads the secret key.

  The file system and the database server are parameters: \<open>isfile\<close> answers
  \<open>os.path.isfile\<close>, and \<open>connect\<close> tells for a URL whether the database can be opened
  and, if so, the tables it holds (\<open>None\<close> for a database without tables).
\<close>

record config =
  SQLALCHEMY_DATABASE_URI :: string
  SQLALCHEMY_TRACK_MODIFICATIONS :: bool
  SECRET_KEY :: "string option"

text \<open>The environment is the list of its variables with their values.\<close>

definition environ_get :: "(string \<times> string) list \<Rightarrow> string \<Rightarrow> string option" where
  "environ_get environ k = map_of environ k"

definition environ_get_default :: "(string \<times> string) list \<Rightarrow> string \<Rightarrow> string \<Rightarrow> string" where
  "environ_get_default environ k dflt = (case map_of environ k of None \<Rightarrow> dflt | Some v \<Rightarrow> v)"

definition app_config :: "(string \<times> string) list \<Rightarrow> config" where
  "app_config environ =
     \<lparr>SQLALCHEMY_DATABASE_URI = environ_get_default environ ''DATABASE_URL'' ''sqlite:///blog.db'',
      SQLALCHEMY_TRACK_MODIFICATIONS = False,
      SECRET_KEY = environ_get environ ''SECRET_KEY''\<rparr>"

definition db_create_all :: "(string \<Rightarrow> error + database option) \<Rightarrow> config \<Rightarrow> error + database" where
  "db_create_all connect cfg =
     (case connect (SQLALCHEMY_DATABASE_URI cfg) of
        Inl e \<Rightarrow> Inl e
      | Inr None \<Rightarrow> Inr create_all
      | Inr (Some db) \<Rightarrow> Inr db)"

text \<open>
  The result of a start-up that does not raise: the configuration, and the database as
  \<open>db.create_all()\<close> left it (\<open>None\<close> when line 135 skipped the call).
\<close>

definition startup ::
  "(string \<times> string) list \<Rightarrow> (string \<Rightarrow> bool) \<Rightarrow> (string \<Rightarrow> error + database option)
     \<Rightarrow> error + (config \<times> database option)" where
  "startup environ isfile connect =
     (let cfg = app_config environ
      in if \<not> isfile ''sqlite:///blog.db'' then
           (case db_create_all connect cfg of
              Inl e \<Rightarrow> Inl e
            | Inr db \<Rightarrow> Inr (cfg, Some db))
         else Inr (cfg, None))"

subsection \<open>Forms and responses\<close>

record RegisterForm =
  register_validate_on_submit :: bool
  register_email :: string
  register_password :: string
  register_name :: unicode

record LoginForm =
  login_validate_on_submit :: bool
  login_email :: string
  login_password :: string

record CommentForm =
  comment_validate_on_submit :: bool
  comment_text_data :: string

text \<open>
  The post form also records whether the request carried form data at all
  (\<open>is_submitted()\<close>): \<open>edit_post\<close> shows the stored post in the form when it did not.
  \<open>validate_on_submit()\<close> is \<open>is_submitted() and validate()\<close>.
\<close>

record CreatePostForm =
  post_is_submitted :: bool
  post_validate :: bool
  form_title :: string
  form_subtitle :: string
  form_body :: string
  form_img_url :: string

definition post_validate_on_submit :: "CreatePostForm \<Rightarrow> bool" where
  "post_validate_on_submit form = (post_is_submitted form \<and> post_validate form)"

text \<open>
  \<open>CreatePostForm(title=post.title, subtitle=post.subtitle, img_url=post.img_url,
  author=post.author, body=post.body)\<close>: the keyword arguments are the field values of a
  request without form data; submitted data take their place.
\<close>

definition CreatePostForm_of_post :: "blog_post \<Rightarrow> CreatePostForm \<Rightarrow> CreatePostForm" where
  "CreatePostForm_of_post post form =
     (if post_is_submitted form then form
      else form\<lparr>form_title := post_title post, form_subtitle := post_subtitle post,
                 form_img_url := post_img_url post, form_body := post_body post\<rparr>)"

datatype template_context =
    NoContext
  | AllPosts "blog_post list"
  | PostContext "blog_post option" string
  | FormContext CreatePostForm bool

datatype response =
    Render string template_context   \<comment> \<open>\<open>render_template(name, ...)\<close>\<close>
  | Redirect string "int option"     \<comment> \<open>\<open>redirect(url_for(endpoint, post_id=...))\<close>\<close>

type_synonym outcome = "error + (database \<times> session \<times> response)"

text \<open>The stored data after a request: an exception commits nothing.\<close>

definition db_after :: "database \<Rightarrow> outcome \<Rightarrow> database" where
  "db_after db r = (case r of Inl _ \<Rightarrow> db | Inr (db', _, _) \<Rightarrow> db')"

definition session_after :: "session \<Rightarrow> outcome \<Rightarrow> session" where
  "session_after s r = (case r of Inl _ \<Rightarrow> s | Inr (_, s', _) \<Rightarrow> s')"

subsection \<open>Guards\<close>

text \<open>
  \<open>login_required\<close> (flask-login, no \<open>login_view\<close> configured) aborts with 401 for the
  anonymous user. \<open>admin_only\<close> (lines 70 to 77) compares \<open>current_user.id\<close> with 1; the
  anonymous user has no \<open>id\<close>.
\<close>

definition login_required :: "(database \<Rightarrow> session \<Rightarrow> outcome) \<Rightarrow> database \<Rightarrow> session \<Rightarrow> outcome" where
  "login_required f db s =
     (if \<not> is_authenticated (current_user db s) then Inl Unauthorized else f db s)"

definition admin_only :: "(database \<Rightarrow> session \<Rightarrow> outcome) \<Rightarrow> database \<Rightarrow> session \<Rightarrow> outcome" where
  "admin_only f db s =
     (case current_user db s of
        None \<Rightarrow> Inl AttributeError
      | Some u \<Rightarrow> if user_id u \<noteq> 1 then Inl Forbidden else f db s)"

subsection \<open>Route handlers\<close>

definition get_all_posts :: "database \<Rightarrow> session \<Rightarrow> outcome" where
  "get_all_posts db s = Inr (db, s, Render ''index.html'' (AllPosts (BlogPost_query_all db)))"

definition register ::
  "(string \<Rightarrow> string) \<Rightarrow> unicode_database \<Rightarrow> RegisterForm \<Rightarrow> database \<Rightarrow> session \<Rightarrow> outcome" where
  "register generate_password_hash u form db s =
     (if register_validate_on_submit form then
        (let hash_and_salted_password = generate_password_hash (register_password form)
         in case add_user db (register_email form) hash_and_salted_password
                   (title u (register_name form)) of
              Inl e \<Rightarrow> Inl e
            | Inr (db', new_user) \<Rightarrow>
                Inr (db', login_user new_user s, Redirect ''get_all_posts'' None))
      else Inr (db, s, Render ''register.html'' NoContext))"

definition login :: "(string \<Rightarrow> string \<Rightarrow> bool) \<Rightarrow> LoginForm \<Rightarrow> database \<Rightarrow> session \<Rightarrow> outcome" where
  "login check_password_hash form db s =
     (if login_validate_on_submit form then
        (case User_query_filter_by_email_first db (login_email form) of
           Some u \<Rightarrow>
             if check_password_hash (user_password u) (login_password form)
             then Inr (db, login_user u s, Redirect ''get_all_posts'' None)
             else Inr (db, flash ''Invalid Password! Please try again.'' s,
                       Render ''login.html'' NoContext)
         | None \<Rightarrow>
             Inr (db, flash ''No user found! Please try again.'' s,
                  Render ''login.html'' NoContext))
      else Inr (db, s, Render ''login.html'' NoContext))"

definition logout :: "database \<Rightarrow> session \<Rightarrow> outcome" where
  "logout db s = Inr (db, logout_user s, Redirect ''get_all_posts'' None)"

text \<open>
  \<open>show_post\<close>, lines 193 to 209. The lookup of line 194 comes first: when it raises,
  the form is not read and nothing is stored.
\<close>

definition show_post :: "date \<Rightarrow> int \<Rightarrow> CommentForm \<Rightarrow> database \<Rightarrow> session \<Rightarrow> outcome" where
  "show_post today pid comment_form db s =
     (case BlogPost_query_get db pid of
        Inl e \<Rightarrow> Inl e
      | Inr requested_post \<Rightarrow>
         (let page = Render ''post.html'' (PostContext requested_post (strftime today))
          in if comment_validate_on_submit comment_form then
               (if is_authenticated (current_user db s) then
                  (case relationship_set (py_current_user (current_user db s)) of
                     Inl e \<Rightarrow> Inl e
                   | Inr a \<Rightarrow>
                       (case relationship_set (py_post requested_post) of
                          Inl e \<Rightarrow> Inl e
                        | Inr p \<Rightarrow>
                            Inr (add_comment db (comment_text_data comment_form) a p, s, page)))
                else Inr (db, flash ''You need to login or register to comment.'' s, page))
             else Inr (db, s, page)))"

definition about :: "database \<Rightarrow> session \<Rightarrow> outcome" where
  "about db s = Inr (db, s, Render ''about.html'' NoContext)"

definition contact :: "database \<Rightarrow> session \<Rightarrow> outcome" where
  "contact db s = Inr (db, s, Render ''contact.html'' NoContext)"

text \<open>The bodies of the three guarded handlers, and then the handlers as decorated.\<close>

definition add_new_post_body :: "date \<Rightarrow> CreatePostForm \<Rightarrow> database \<Rightarrow> session \<Rightarrow> outcome" where
  "add_new_post_body today form db s =
     (if post_validate_on_submit form then
        (case relationship_set (py_current_user (current_user db s)) of
           Inl e \<Rightarrow> Inl e
         | Inr a \<Rightarrow>
             (case add_post db a (form_title form) (form_subtitle form) (form_body form)
                     (form_img_url form) (strftime today) of
                Inl e \<Rightarrow> Inl e
              | Inr db' \<Rightarrow> Inr (db', s, Redirect ''get_all_posts'' None)))
      else Inr (db, s, Render ''make-post.html'' (FormContext form False)))"

text \<open>
  \<open>edit_post\<close>, lines 245 to 263. The lookup of line 246 can raise; the form is built
  from the post (\<open>post.title\<close> on \<open>None\<close> raises). On a valid submission line 258 assigns
  \<open>current_user.name\<close>, a string, to the relationship attribute \<open>post.author\<close>, before
  the commit of line 260.
\<close>

definition edit_post_body :: "int \<Rightarrow> CreatePostForm \<Rightarrow> database \<Rightarrow> session \<Rightarrow> outcome" where
  "edit_post_body pid request_form db s =
     (case BlogPost_query_get db pid of
        Inl e \<Rightarrow> Inl e
      | Inr None \<Rightarrow> Inl AttributeError
      | Inr (Some post) \<Rightarrow>
          (let edit_form = CreatePostForm_of_post post request_form
           in if post_validate_on_submit edit_form then
                (case current_user db s of
                   None \<Rightarrow> Inl AttributeError
                 | Some u \<Rightarrow>
                     (case relationship_set (PyStr (user_name u)) of
                        Inl e \<Rightarrow> Inl e
                      | Inr a \<Rightarrow>
                          (case update_post db post (form_title edit_form) (form_subtitle edit_form)
                                  (form_img_url edit_form) a (form_body edit_form) of
                             Inl e \<Rightarrow> Inl e
                           | Inr db' \<Rightarrow> Inr (db', s, Redirect ''show_post'' (Some (post_id post))))))
              else Inr (db, s, Render ''make-post.html'' (FormContext edit_form True))))"

text \<open>
  \<open>delete_post\<close>, lines 269 to 273: the lookup of line 270 can raise, and so does
  \<open>db.session.delete(None)\<close>.
\<close>

definition delete_post_body :: "int \<Rightarrow> database \<Rightarrow> session \<Rightarrow> outcome" where
  "delete_post_body pid db s =
     (case BlogPost_query_get db pid of
        Inl e \<Rightarrow> Inl e
      | Inr post_to_delete \<Rightarrow>
          (case session_delete db post_to_delete of
             Inl e \<Rightarrow> Inl e
           | Inr db' \<Rightarrow> Inr (db', s, Redirect ''get_all_posts'' None)))"

definition add_new_post :: "date \<Rightarrow> CreatePostForm \<Rightarrow> database \<Rightarrow> session \<Rightarrow> outcome" where
  "add_new_post today form = login_required (admin_only (add_new_post_body today form))"

definition edit_post :: "int \<Rightarrow> CreatePostForm \<Rightarrow> database \<Rightarrow> session \<Rightarrow> outcome" where
  "edit_post pid edit_form = login_required (admin_only (edit_post_body pid edit_form))"

definition delete_post :: "int \<Rightarrow> database \<Rightarrow> session \<Rightarrow> outcome" where
  "delete_post pid = login_required (admin_only (delete_post_body pid))"

subsection \<open>Requests and reachable databases\<close>

datatype request =
    GetAllPosts
  | Register RegisterForm
  | Login LoginForm
  | Logout
  | ShowPost date int CommentForm
  | About
  | Contact
  | NewPost date CreatePostForm
  | EditPost int CreatePostForm
  | DeletePost int

definition dispatch ::
  "(string \<Rightarrow> string) \<Rightarrow> unicode_database \<Rightarrow> (string \<Rightarrow> string \<Rightarrow> bool) \<Rightarrow> request
     \<Rightarrow> database \<Rightarrow> session \<Rightarrow> outcome" where
  "dispatch generate_password_hash u check_password_hash req =
     (case req of
        GetAllPosts \<Rightarrow> get_all_posts
      | Register form \<Rightarrow> register generate_password_hash u form
      | Login form \<Rightarrow> login check_password_hash form
      | Logout \<Rightarrow> logout
      | ShowPost today pid form \<Rightarrow> show_post today pid form
      | About \<Rightarrow> about
      | Contact \<Rightarrow> contact
      | NewPost today form \<Rightarrow> add_new_post today form
      | EditPost pid form \<Rightarrow> edit_post pid form
      | DeletePost pid \<Rightarrow> delete_post pid)"

text \<open>
  The databases the application can be in: it starts with empty tables, and every request,
  sent with any session, leaves the database that its handler committed.
\<close>

inductive reachable :: "database \<Rightarrow> bool" where
  initial: "reachable create_all"
| request: "reachable db \<Longrightarrow> reachable (db_after db (dispatch g u c req db s))"

subsection \<open>Invariants of the stored data\<close>

text \<open>
  What a comment refers to: its author is a row of \<open>users\<close>, and its parent post is
  either NULL or a row of \<open>blog_posts\<close>.
\<close>

definition comment_refs_ok :: "database \<Rightarrow> comment \<Rightarrow> bool" where
  "comment_refs_ok db c =
     ((case comment_author_id c of
         None \<Rightarrow> False
       | Some a \<Rightarrow> a \<in> set (map user_id (users db)))
      \<and> (case comment_post_id c of
         None \<Rightarrow> True
       | Some p \<Rightarrow> p \<in> set (map post_id (blog_posts db))))"

definition comments_ok :: "database \<Rightarrow> bool" where
  "comments_ok db = list_all (comment_refs_ok db) (comments db)"

definition first_user_is_1 :: "database \<Rightarrow> bool" where
  "first_user_is_1 db = (case users db of [] \<Rightarrow> True | u # _ \<Rightarrow> user_id u = 1)"

subsection \<open>Sample data\<close>

text \<open>
  Names are written as the code points of an ASCII literal. \<open>unicode_excerpt\<close> is the
  Unicode character database on the code points the samples use: ASCII, the sharp s
  U+00DF (223), whose title-case mapping is \<open>Ss\<close>, and the capital sharp s U+1E9E
  (7838), whose lower-case mapping is U+00DF. It treats every other code point as uncased,
  which the Unicode database does not; no sample holds one.
\<close>

definition codepoints :: "string \<Rightarrow> unicode" where
  "codepoints s = map of_char s"

definition unicode_excerpt :: unicode_database where
  "unicode_excerpt =
     \<lparr>IsCased = (\<lambda>c. ascii_letter c \<or> c = 223 \<or> c = 7838),
      IsCaseIgnorable = (\<lambda>c. c = 39 \<or> c = 46 \<or> c = 58 \<or> c = 94 \<or> c = 96),
      ToTitleFull = (\<lambda>c. if c = 223 then [83, 115] else [ascii_upper c]),
      ToLowerFull = (\<lambda>c. if c = 7838 then [223] else [ascii_lower c])\<rparr>"

definition anonymous :: session where
  "anonymous = \<lparr>session_user_id = None, flashes = []\<rparr>"

definition alice_session :: session where
  "alice_session = \<lparr>session_user_id = Some 1, flashes = []\<rparr>"

definition bob_session :: session where
  "bob_session = \<lparr>session_user_id = Some 2, flashes = []\<rparr>"

definition alice_form :: RegisterForm where
  "alice_form = \<lparr>register_validate_on_submit = True, register_email = ''alice@example.com'',
     register_password = ''secret'', register_name = codepoints ''alice liddell''\<rparr>"

definition alice_form_upper :: RegisterForm where
  "alice_form_upper = \<lparr>register_validate_on_submit = True, register_email = ''al@example.com'',
     register_password = ''secret'', register_name = codepoints ''ALICE LIDDELL''\<rparr>"

text \<open>Two names that differ only in the case of their first letter, the sharp s.\<close>

definition sharp_form :: RegisterForm where
  "sharp_form = \<lparr>register_validate_on_submit = True, register_email = ''sharp@example.com'',
     register_password = ''secret'', register_name = [223, 97]\<rparr>"

definition capital_sharp_form :: RegisterForm where
  "capital_sharp_form = \<lparr>register_validate_on_submit = True,
     register_email = ''capital@example.com'', register_password = ''secret'',
     register_name = [7838, 97]\<rparr>"

definition bob_form :: RegisterForm where
  "bob_form = \<lparr>register_validate_on_submit = True, register_email = ''bob@example.com'',
     register_password = ''hunter2'', register_name = codepoints ''bob''\<rparr>"

definition alice :: user where
  "alice = \<lparr>user_id = 1, user_email = ''alice@example.com'', user_password = ''terces'',
     user_name = codepoints ''Alice Liddell''\<rparr>"

definition bob :: user where
  "bob = \<lparr>user_id = 2, user_email = ''bob@example.com'', user_password = ''2retnuh'',
     user_name = codepoints ''Bob''\<rparr>"

definition db_alice :: database where
  "db_alice = \<lparr>users = [alice], blog_posts = [], comments = []\<rparr>"

definition db_two_users :: database where
  "db_two_users = \<lparr>users = [alice, bob], blog_posts = [], comments = []\<rparr>"

definition march_5 :: date where
  "march_5 = \<lparr>year = 2024, month = 3, day = 5\<rparr>"

definition hello_form :: CreatePostForm where
  "hello_form = \<lparr>post_is_submitted = True, post_validate = True, form_title = ''Hello'', form_subtitle = ''World'',
     form_body = ''First post'', form_img_url = ''http://example.com/a.png''\<rparr>"

definition changed_form :: CreatePostForm where
  "changed_form = \<lparr>post_is_submitted = True, post_validate = True, form_title = ''Hello again'',
     form_subtitle = ''World'', form_body = ''Edited'', form_img_url = ''http://example.com/b.png''\<rparr>"

definition hello_post :: blog_post where
  "hello_post = \<lparr>post_id = 1, post_author_id = Some 1, post_title = ''Hello'',
     post_subtitle = ''World'', post_date = ''March 05, 2024'', post_body = ''First post'',
     post_img_url = ''http://example.com/a.png''\<rparr>"

definition db_with_post :: database where
  "db_with_post = \<lparr>users = [alice, bob], blog_posts = [hello_post], comments = []\<rparr>"

definition nice_comment :: CommentForm where
  "nice_comment = \<lparr>comment_validate_on_submit = True, comment_text_data = ''Nice''\<rparr>"

definition wrong_password :: LoginForm where
  "wrong_password = \<lparr>login_validate_on_submit = True, login_email = ''alice@example.com'',
     login_password = ''guess''\<rparr>"

definition rejected_login :: LoginForm where
  "rejected_login = \<lparr>login_validate_on_submit = False, login_email = ''alice@example.com'',
     login_password = ''guess''\<rparr>"

definition unknown_email :: LoginForm where
  "unknown_email = \<lparr>login_validate_on_submit = True, login_email = ''carol@example.com'',
     login_password = ''secret''\<rparr>"

definition bob_comment :: comment where
  "bob_comment = \<lparr>comment_id = 1, comment_author_id = Some 2, comment_post_id = Some 1,
     comment_text = ''Nice''\<rparr>"

definition db_with_comment :: database where
  "db_with_comment = \<lparr>users = [alice, bob], blog_posts = [hello_post], comments = [bob_comment]\<rparr>"

definition orphan_comment :: comment where
  "orphan_comment = \<lparr>comment_id = 1, comment_author_id = Some 2, comment_post_id = None,
     comment_text = ''Nice''\<rparr>"

definition db_with_orphan :: database where
  "db_with_orphan = \<lparr>users = [alice, bob], blog_posts = [hello_post], comments = [orphan_comment]\<rparr>"

text \<open>
  File systems and database servers for start-up: no file named \<open>sqlite:///blog.db\<close>;
  a database that can be opened and has no tables yet; one that holds Alice and Bob; and
  one that cannot be opened.
\<close>

definition no_such_file :: "string \<Rightarrow> bool" where
  "no_such_file path = False"

definition new_database :: "string \<Rightarrow> error + database option" where
  "new_database url = Inr None"

definition database_in_use :: "string \<Rightarrow> error + database option" where
  "database_in_use url = Inr (Some db_two_users)"

definition no_database :: "string \<Rightarrow> error + database option" where
  "no_database url = Inl OperationalError"

text \<open>
  A stand-in for werkzeug in the samples: the hash of a password is its reversal, and a
  password is verified by reversing it.
\<close>

definition sample_hash :: "string \<Rightarrow> string" where
  "sample_hash pw = rev pw"

definition sample_check :: "string \<Rightarrow> string \<Rightarrow> bool" where
  "sample_check pwhash pw = (pwhash = rev pw)"

section \<open>Properties\<close>

subsection \<open>Keys, lookups and guards\<close>

lemma fold_max_ge: "(a::int) \<le> fold max ids a"
proof (induction ids arbitrary: a)
  case Nil
  show ?case by simp
next
  case (Cons z zs)
  have "a \<le> max z a" by simp
  also have "\<dots> \<le> fold max zs (max z a)" by (rule Cons.IH)
  finally show ?case by simp
qed

lemma fold_max_mem: "(x::int) \<in> set ids \<Longrightarrow> x \<le> fold max ids a"
proof (induction ids arbitrary: a)
  case Nil
  then show ?case by simp
next
  case (Cons y ys)
  show ?case
  proof (cases "x = y")
    case True
    have "x \<le> max y a" using True by simp
    also have "\<dots> \<le> fold max ys (max y a)" by (rule fold_max_ge)
    finally show ?thesis by simp
  next
    case False
    with Cons.prems have "x \<in> set ys" by simp
    then show ?thesis using Cons.IH by simp
  qed
qed

lemma next_id_positive: "0 < next_id ids"
  using fold_max_ge [of 0 ids] by (simp add: next_id_def)

lemma next_id_fresh: "next_id ids \<notin> set ids"
  using fold_max_mem [of "next_id ids" ids 0] by (auto simp: next_id_def)

lemma find_append_fresh:
  "\<forall>x \<in> set xs. \<not> P x \<Longrightarrow> P y \<Longrightarrow> find P (xs @ [y]) = Some y"
  by (induction xs) auto

lemma find_SomeD: "find P xs = Some x \<Longrightarrow> P x \<and> x \<in> set xs"
  by (induction xs) (auto split: if_splits)

lemma find_hd: "xs \<noteq> [] \<Longrightarrow> P (hd xs) \<Longrightarrow> find P xs = Some (hd xs)"
  by (cases xs) auto

lemma current_user_SomeD:
  "current_user db s = Some u \<Longrightarrow> u \<in> set (users db) \<and> session_user_id s = Some (user_id u)"
  by (auto simp: current_user_def load_user_def User_query_get_def
      split: option.splits dest: find_SomeD)

lemma select_post_SomeD:
  "select_post db pid = Some p \<Longrightarrow> post_id p = pid \<and> p \<in> set (blog_posts db)"
  by (auto simp: select_post_def dest: find_SomeD)

lemma BlogPost_query_get_in_range:
  "pid \<le> sqlite_max_integer \<Longrightarrow> BlogPost_query_get db pid = Inr (select_post db pid)"
  by (simp add: BlogPost_query_get_def)

lemma BlogPost_query_get_overflow:
  "sqlite_max_integer < pid \<Longrightarrow> BlogPost_query_get db pid = Inl OverflowError"
  by (simp add: BlogPost_query_get_def)

lemma guard_forbidden:
  "current_user db s = Some u \<Longrightarrow> user_id u \<noteq> 1 \<Longrightarrow> login_required (admin_only f) db s = Inl Forbidden"
  by (simp add: login_required_def admin_only_def is_authenticated_def)

lemma guard_admin:
  "current_user db s = Some u \<Longrightarrow> user_id u = 1 \<Longrightarrow> login_required (admin_only f) db s = f db s"
  by (simp add: login_required_def admin_only_def is_authenticated_def)

lemma edit_post_body_unchanged: "db_after db (edit_post_body pid form db s) = db"
  by (simp add: edit_post_body_def relationship_set_def db_after_def Let_def
      split: option.splits sum.splits)

lemma guard_db_after:
  "db_after db (login_required (admin_only f) db s) = db \<or>
   db_after db (login_required (admin_only f) db s) = db_after db (f db s)"
  by (simp add: login_required_def admin_only_def db_after_def split: option.splits)

lemma users_after:
  "users (db_after db (dispatch g ud c req db s)) = users db \<or>
   (\<exists>e pw n. users (db_after db (dispatch g ud c req db s)) =
      users db @ [\<lparr>user_id = next_id (map user_id (users db)), user_email = e,
                    user_password = pw, user_name = n\<rparr>])"
proof (cases req)
  case (Register form)
  then show ?thesis
    by (simp add: dispatch_def register_def add_user_def db_after_def Let_def)
next
  case (ShowPost today pid form)
  then show ?thesis
    by (simp add: dispatch_def show_post_def add_comment_def db_after_def Let_def
        split: sum.splits option.splits)
next
  case (NewPost today form)
  have "users (db_after db (add_new_post_body today form db s)) = users db"
    by (simp add: add_new_post_body_def add_post_def db_after_def Let_def split: sum.splits)
  then show ?thesis using NewPost guard_db_after [of db "add_new_post_body today form" s]
    by (auto simp: dispatch_def add_new_post_def)
next
  case (EditPost pid form)
  then show ?thesis using guard_db_after [of db "edit_post_body pid form" s]
    by (auto simp: dispatch_def edit_post_def edit_post_body_unchanged)
next
  case (DeletePost pid)
  have "users (db_after db (delete_post_body pid db s)) = users db"
    by (simp add: delete_post_body_def session_delete_def db_after_def Let_def
        split: sum.splits option.splits)
  then show ?thesis using DeletePost guard_db_after [of db "delete_post_body pid" s]
    by (auto simp: dispatch_def delete_post_def)
qed (simp_all add: dispatch_def get_all_posts_def login_def logout_def about_def contact_def
      db_after_def split: option.splits)

lemma next_id_Nil: "next_id [] = 1"
  by (simp add: next_id_def)

lemma reachable_first_user: "reachable db \<Longrightarrow> first_user_is_1 db"
proof (induction rule: reachable.induct)
  case initial
  show ?case by (simp add: first_user_is_1_def create_all_def)
next
  case (request db g ud c req s)
  from users_after [of db g ud c req s] show ?case
  proof
    assume "users (db_after db (dispatch g ud c req db s)) = users db"
    with request.IH show ?thesis by (simp add: first_user_is_1_def)
  next
    assume "\<exists>e pw n. users (db_after db (dispatch g ud c req db s)) =
      users db @ [\<lparr>user_id = next_id (map user_id (users db)), user_email = e,
                    user_password = pw, user_name = n\<rparr>]"
    then obtain e pw n where
      "users (db_after db (dispatch g ud c req db s)) =
        users db @ [\<lparr>user_id = next_id (map user_id (users db)), user_email = e,
                    user_password = pw, user_name = n\<rparr>]" by blast
    with request.IH show ?thesis
      by (cases "users db") (simp_all add: first_user_is_1_def next_id_Nil)
  qed
qed

subsection \<open>The sample data are reachable\<close>

lemma register_alice:
  "register sample_hash unicode_excerpt alice_form create_all anonymous =
     Inr (db_alice, alice_session, Redirect ''get_all_posts'' None)"
  by code_simp

lemma register_bob:
  "register sample_hash unicode_excerpt bob_form db_alice anonymous =
     Inr (db_two_users, bob_session, Redirect ''get_all_posts'' None)"
  by code_simp

lemma current_user_alice: "current_user db_two_users alice_session = Some alice"
  by code_simp

lemma current_user_bob: "current_user db_two_users bob_session = Some bob"
  by code_simp

lemma add_hello_post:
  "add_new_post march_5 hello_form db_two_users alice_session =
     Inr (db_with_post, alice_session, Redirect ''get_all_posts'' None)"
  by code_simp

lemma reachable_db_alice: "reachable db_alice"
  using reachable.request [OF reachable.initial, of sample_hash unicode_excerpt sample_check "Register alice_form" anonymous]
  by (simp add: dispatch_def register_alice db_after_def)

lemma reachable_db_two_users: "reachable db_two_users"
  using reachable.request [OF reachable_db_alice, of sample_hash unicode_excerpt sample_check "Register bob_form" anonymous]
  by (simp add: dispatch_def register_bob db_after_def)

lemma reachable_db_with_post: "reachable db_with_post"
  using reachable.request [OF reachable_db_two_users, of sample_hash unicode_excerpt sample_check
      "NewPost march_5 hello_form" alice_session]
  by (simp add: dispatch_def add_hello_post db_after_def)

lemma current_user_anonymous: "current_user db_with_post anonymous = None"
  by code_simp

lemma current_user_bob_post: "current_user db_with_post bob_session = Some bob"
  by code_simp

lemma current_user_alice_post: "current_user db_with_post alice_session = Some alice"
  by code_simp

lemma select_hello_post: "select_post db_with_post 1 = Some hello_post"
  by code_simp

subsection \<open>Authorization of the post actions\<close>

text \<open>
  Claim C1. In every reachable database, for a request by an authenticated user \<open>u\<close>: if
  the id of \<open>u\<close> is not the id of the first row of \<open>users\<close> (the first user ever created;
  users are never deleted), then the guard chain answers \<open>Forbidden\<close> whatever the handler
  body is, so new-post, edit-post and delete-post all fail with 403 and their bodies are
  not run; and if it is, then \<open>u\<close> is that first user and the three handlers are their
  bodies. The literal 1 of \<open>admin_only\<close> is the id of the first user.
\<close>

theorem admin_only_first_user:
  assumes "reachable db" and "current_user db s = Some u"
  shows "(user_id u \<noteq> user_id (hd (users db)) \<longrightarrow>
            (\<forall>body. login_required (admin_only body) db s = Inl Forbidden)
            \<and> add_new_post today form db s = Inl Forbidden
            \<and> edit_post pid form db s = Inl Forbidden
            \<and> delete_post pid db s = Inl Forbidden)
       \<and> (user_id u = user_id (hd (users db)) \<longrightarrow>
            u = hd (users db)
            \<and> add_new_post today form db s = add_new_post_body today form db s
            \<and> edit_post pid form db s = edit_post_body pid form db s
            \<and> delete_post pid db s = delete_post_body pid db s)"
proof -
  from assms(2) have mem: "u \<in> set (users db)" and sid: "session_user_id s = Some (user_id u)"
    by (simp_all add: current_user_SomeD)
  then have ne: "users db \<noteq> []" by auto
  with reachable_first_user [OF assms(1)] have first: "user_id (hd (users db)) = 1"
    by (cases "users db") (simp_all add: first_user_is_1_def)
  have same: "u = hd (users db)" if "user_id u = 1"
  proof -
    have "find (\<lambda>v. user_id v = 1) (users db) = Some (hd (users db))"
      using ne first by (simp add: find_hd)
    with assms(2) sid that show ?thesis
      by (simp add: current_user_def load_user_def User_query_get_def)
  qed
  show ?thesis
    using assms(2) first same
    by (auto simp: add_new_post_def edit_post_def delete_post_def guard_forbidden guard_admin)
qed

text \<open>Bob, the second user, is refused; Alice, the first, reaches the handler body.\<close>

theorem admin_only_first_user_witness:
  "reachable db_two_users
   \<and> current_user db_two_users bob_session = Some bob
   \<and> user_id bob \<noteq> user_id (hd (users db_two_users))
   \<and> add_new_post march_5 hello_form db_two_users bob_session = Inl Forbidden
   \<and> edit_post 1 hello_form db_two_users bob_session = Inl Forbidden
   \<and> delete_post 1 db_two_users bob_session = Inl Forbidden
   \<and> current_user db_two_users alice_session = Some alice
   \<and> alice = hd (users db_two_users)
   \<and> delete_post 1 db_two_users alice_session = delete_post_body 1 db_two_users alice_session"
proof -
  have ids: "user_id bob \<noteq> user_id (hd (users db_two_users))"
    "user_id alice = user_id (hd (users db_two_users))"
    by (simp_all add: db_two_users_def alice_def bob_def)
  from admin_only_first_user [OF reachable_db_two_users current_user_bob,
      of march_5 hello_form 1] ids(1)
  have b: "add_new_post march_5 hello_form db_two_users bob_session = Inl Forbidden
     \<and> edit_post 1 hello_form db_two_users bob_session = Inl Forbidden
     \<and> delete_post 1 db_two_users bob_session = Inl Forbidden"
    by blast
  from admin_only_first_user [OF reachable_db_two_users current_user_alice,
      of march_5 hello_form 1] ids(2)
  have a: "alice = hd (users db_two_users)
     \<and> delete_post 1 db_two_users alice_session = delete_post_body 1 db_two_users alice_session"
    by blast
  from a b ids(1) reachable_db_two_users current_user_bob current_user_alice
  show ?thesis by blast
qed

subsection \<open>Login\<close>

text \<open>
  Against claim C4, which speaks of every login submission: Alice is registered, the
  submitted password is wrong, and the form does not validate. The login form is rendered
  again with no flash message; the session had none before.
\<close>

theorem login_rejected_form_no_flash:
  "User_query_filter_by_email_first db_two_users (login_email rejected_login) = Some alice
   \<and> \<not> sample_check (user_password alice) (login_password rejected_login)
   \<and> login sample_check rejected_login db_two_users anonymous =
        Inr (db_two_users, anonymous, Render ''login.html'' NoContext)
   \<and> flashes anonymous = []"
  by code_simp

text \<open>
  Claim C4, amended. For a login submission that \<open>validate_on_submit\<close> accepts: when a user
  with the submitted email exists and the hash check fails, the login form is rendered
  again and \<open>Invalid Password! Please try again.\<close> is appended to the flash messages of
  the session; when no user has the email, the login form is rendered again and the
  different message \<open>No user found! Please try again.\<close> is appended. In both cases the
  database is unchanged and the session stays bound to whom it was bound before (to
  nobody, for an anonymous session). A submission that does not validate gets the login
  form again, with the session and its flash messages unchanged.
\<close>

theorem login_failures:
  "(login_validate_on_submit form \<longrightarrow>
      (\<forall>u. User_query_filter_by_email_first db (login_email form) = Some u
            \<and> \<not> check_password_hash (user_password u) (login_password form)
          \<longrightarrow> login check_password_hash form db s =
                Inr (db, \<lparr>session_user_id = session_user_id s,
                          flashes = flashes s @ [''Invalid Password! Please try again.'']\<rparr>,
                     Render ''login.html'' NoContext))
      \<and> (User_query_filter_by_email_first db (login_email form) = None
          \<longrightarrow> login check_password_hash form db s =
                Inr (db, \<lparr>session_user_id = session_user_id s,
                          flashes = flashes s @ [''No user found! Please try again.'']\<rparr>,
                     Render ''login.html'' NoContext)))
   \<and> (\<not> login_validate_on_submit form \<longrightarrow>
        login check_password_hash form db s = Inr (db, s, Render ''login.html'' NoContext))
   \<and> ''Invalid Password! Please try again.'' \<noteq> ''No user found! Please try again.''"
  by (simp add: login_def flash_def)

text \<open>
  A wrong password for Alice, an email nobody registered, and a form that does not
  validate, each sent by an anonymous session.
\<close>

theorem login_failures_witness:
  "login_validate_on_submit wrong_password
   \<and> User_query_filter_by_email_first db_two_users (login_email wrong_password) = Some alice
   \<and> \<not> sample_check (user_password alice) (login_password wrong_password)
   \<and> login sample_check wrong_password db_two_users anonymous =
        Inr (db_two_users,
             \<lparr>session_user_id = None, flashes = [''Invalid Password! Please try again.'']\<rparr>,
             Render ''login.html'' NoContext)
   \<and> login_validate_on_submit unknown_email
   \<and> User_query_filter_by_email_first db_two_users (login_email unknown_email) = None
   \<and> login sample_check unknown_email db_two_users anonymous =
        Inr (db_two_users,
             \<lparr>session_user_id = None, flashes = [''No user found! Please try again.'']\<rparr>,
             Render ''login.html'' NoContext)
   \<and> \<not> login_validate_on_submit rejected_login
   \<and> login sample_check rejected_login db_two_users anonymous =
        Inr (db_two_users, anonymous, Render ''login.html'' NoContext)"
proof -
  have v1: "login_validate_on_submit wrong_password" by (simp add: wrong_password_def)
  have v2: "login_validate_on_submit unknown_email" by (simp add: unknown_email_def)
  have v3: "\<not> login_validate_on_submit rejected_login" by (simp add: rejected_login_def)
  have q1: "User_query_filter_by_email_first db_two_users (login_email wrong_password) = Some alice"
    by code_simp
  have c1: "\<not> sample_check (user_password alice) (login_password wrong_password)"
    by code_simp
  have q2: "User_query_filter_by_email_first db_two_users (login_email unknown_email) = None"
    by code_simp
  have anon: "session_user_id anonymous = None" "flashes anonymous = []"
    by (simp_all add: anonymous_def)
  note t1 = login_failures [of wrong_password db_two_users sample_check anonymous]
  note t2 = login_failures [of unknown_email db_two_users sample_check anonymous]
  note t3 = login_failures [of rejected_login db_two_users sample_check anonymous]
  from t1 v1 q1 c1
  have r1: "login sample_check wrong_password db_two_users anonymous =
        Inr (db_two_users,
             \<lparr>session_user_id = session_user_id anonymous,
               flashes = flashes anonymous @ [''Invalid Password! Please try again.'']\<rparr>,
             Render ''login.html'' NoContext)"
    by blast
  from t2 v2 q2
  have r2: "login sample_check unknown_email db_two_users anonymous =
        Inr (db_two_users,
             \<lparr>session_user_id = session_user_id anonymous,
               flashes = flashes anonymous @ [''No user found! Please try again.'']\<rparr>,
             Render ''login.html'' NoContext)"
    by blast
  from t3 v3
  have r3: "login sample_check rejected_login db_two_users anonymous =
        Inr (db_two_users, anonymous, Render ''login.html'' NoContext)"
    by blast
  from r1 have r1': "login sample_check wrong_password db_two_users anonymous =
        Inr (db_two_users,
             \<lparr>session_user_id = None, flashes = [''Invalid Password! Please try again.'']\<rparr>,
             Render ''login.html'' NoContext)"
    by (simp only: anon append_Nil)
  from r2 have r2': "login sample_check unknown_email db_two_users anonymous =
        Inr (db_two_users,
             \<lparr>session_user_id = None, flashes = [''No user found! Please try again.'']\<rparr>,
             Render ''login.html'' NoContext)"
    by (simp only: anon append_Nil)
  show ?thesis
    by (intro conjI) (fact v1, fact q1, fact c1, fact r1', fact v2, fact q2, fact r2',
        fact v3, fact r3)
qed

subsection \<open>Comments\<close>

text \<open>
  Claim C5. For a comment submission that \<open>validate_on_submit\<close> accepts on the detail view
  of post \<open>pid\<close> (an id that the lookup of line 194 accepts): an anonymous session gets
  the page again, \<open>You need to login or register to comment.\<close> is appended to its flash
  messages, and the database is unchanged; an authenticated session adds exactly one row
  to \<open>comments\<close>, whose author is the current user, whose text is the submitted text, and
  whose parent post is the viewed post.
\<close>

theorem show_post_comment:
  assumes "comment_validate_on_submit form" and "pid \<le> sqlite_max_integer"
  shows "(current_user db s = None \<longrightarrow>
            show_post today pid form db s =
              Inr (db,
                   \<lparr>session_user_id = session_user_id s,
                     flashes = flashes s @ [''You need to login or register to comment.'']\<rparr>,
                   Render ''post.html'' (PostContext (select_post db pid) (strftime today))))
       \<and> (\<forall>u. current_user db s = Some u \<longrightarrow>
            (\<exists>c. show_post today pid form db s =
                   Inr (db\<lparr>comments := comments db @ [c]\<rparr>, s,
                        Render ''post.html'' (PostContext (select_post db pid) (strftime today)))
                 \<and> comment_author_id c = Some (user_id u)
                 \<and> comment_text c = comment_text_data form
                 \<and> comment_post_id c = map_option post_id (select_post db pid)
                 \<and> (\<forall>p. select_post db pid = Some p \<longrightarrow>
                       comment_post_id c = Some pid \<and> p \<in> set (blog_posts db))))"
proof (intro conjI impI allI)
  assume "current_user db s = None"
  with assms show "show_post today pid form db s =
      Inr (db,
           \<lparr>session_user_id = session_user_id s,
             flashes = flashes s @ [''You need to login or register to comment.'']\<rparr>,
           Render ''post.html'' (PostContext (select_post db pid) (strftime today)))"
    by (simp add: show_post_def BlogPost_query_get_in_range is_authenticated_def Let_def
        flash_def)
next
  fix u assume cu: "current_user db s = Some u"
  let ?c = "\<lparr>comment_id = next_id (map comment_id (comments db)),
             comment_author_id = Some (user_id u),
             comment_post_id = map_option post_id (select_post db pid),
             comment_text = comment_text_data form\<rparr>"
  have run: "show_post today pid form db s =
      Inr (db\<lparr>comments := comments db @ [?c]\<rparr>, s,
           Render ''post.html'' (PostContext (select_post db pid) (strftime today)))"
    using assms cu
    by (simp add: show_post_def BlogPost_query_get_in_range is_authenticated_def
        py_current_user_def py_post_def relationship_set_def add_comment_def Let_def
        split: option.splits)
  have post: "\<forall>p. select_post db pid = Some p \<longrightarrow>
      comment_post_id ?c = Some pid \<and> p \<in> set (blog_posts db)"
    by (auto dest: select_post_SomeD)
  from run post
  show "\<exists>c. show_post today pid form db s =
           Inr (db\<lparr>comments := comments db @ [c]\<rparr>, s,
                Render ''post.html'' (PostContext (select_post db pid) (strftime today)))
         \<and> comment_author_id c = Some (user_id u)
         \<and> comment_text c = comment_text_data form
         \<and> comment_post_id c = map_option post_id (select_post db pid)
         \<and> (\<forall>p. select_post db pid = Some p \<longrightarrow>
               comment_post_id c = Some pid \<and> p \<in> set (blog_posts db))"
    by (intro exI [of _ ?c]) simp
qed

text \<open>
  Anonymous and Bob both submit \<open>Nice\<close> on the page of post 1: nothing is stored for the
  first, who gets the flash message; one comment by Bob on post 1 for the second.
\<close>

theorem show_post_comment_witness:
  "comment_validate_on_submit nice_comment
   \<and> (1::int) \<le> sqlite_max_integer
   \<and> current_user db_with_post anonymous = None
   \<and> show_post march_5 1 nice_comment db_with_post anonymous =
        Inr (db_with_post,
             \<lparr>session_user_id = None,
               flashes = [''You need to login or register to comment.'']\<rparr>,
             Render ''post.html'' (PostContext (Some hello_post) ''March 05, 2024''))
   \<and> current_user db_with_post bob_session = Some bob
   \<and> select_post db_with_post 1 = Some hello_post
   \<and> (\<exists>c. show_post march_5 1 nice_comment db_with_post bob_session =
             Inr (db_with_post\<lparr>comments := comments db_with_post @ [c]\<rparr>, bob_session,
                  Render ''post.html'' (PostContext (select_post db_with_post 1) (strftime march_5)))
           \<and> comment_author_id c = Some (user_id bob)
           \<and> comment_text c = comment_text_data nice_comment
           \<and> comment_post_id c = Some 1)"
proof -
  have v: "comment_validate_on_submit nice_comment" by (simp add: nice_comment_def)
  have r: "(1::int) \<le> sqlite_max_integer" by (simp add: sqlite_max_integer_def)
  have anon: "session_user_id anonymous = None" "flashes anonymous = []"
    by (simp_all add: anonymous_def)
  have d: "strftime march_5 = ''March 05, 2024''" by code_simp
  note t = show_post_comment [OF v r, of db_with_post _ march_5]
  from t [of anonymous] current_user_anonymous
  have "show_post march_5 1 nice_comment db_with_post anonymous =
        Inr (db_with_post,
             \<lparr>session_user_id = session_user_id anonymous,
               flashes = flashes anonymous @ [''You need to login or register to comment.'']\<rparr>,
             Render ''post.html'' (PostContext (select_post db_with_post 1) (strftime march_5)))"
    by blast
  then have a: "show_post march_5 1 nice_comment db_with_post anonymous =
        Inr (db_with_post,
             \<lparr>session_user_id = None,
               flashes = [''You need to login or register to comment.'']\<rparr>,
             Render ''post.html'' (PostContext (Some hello_post) ''March 05, 2024''))"
    by (simp only: anon append_Nil select_hello_post d)
  from t [of bob_session] current_user_bob_post
  obtain c where c: "show_post march_5 1 nice_comment db_with_post bob_session =
             Inr (db_with_post\<lparr>comments := comments db_with_post @ [c]\<rparr>, bob_session,
                  Render ''post.html'' (PostContext (select_post db_with_post 1) (strftime march_5)))"
     "comment_author_id c = Some (user_id bob)"
     "comment_text c = comment_text_data nice_comment"
     "\<forall>p. select_post db_with_post 1 = Some p \<longrightarrow>
          comment_post_id c = Some 1 \<and> p \<in> set (blog_posts db_with_post)"
    by blast
  from c(4) select_hello_post have "comment_post_id c = Some 1" by blast
  with c(1,2,3) have e: "\<exists>c. show_post march_5 1 nice_comment db_with_post bob_session =
             Inr (db_with_post\<lparr>comments := comments db_with_post @ [c]\<rparr>, bob_session,
                  Render ''post.html'' (PostContext (select_post db_with_post 1) (strftime march_5)))
           \<and> comment_author_id c = Some (user_id bob)
           \<and> comment_text c = comment_text_data nice_comment
           \<and> comment_post_id c = Some 1" by blast
  show ?thesis
    by (intro conjI) (fact v, fact r, fact current_user_anonymous, fact a,
        fact current_user_bob_post, fact select_hello_post, fact e)
qed

subsection \<open>Deleting a post that does not exist\<close>

text \<open>
  Against claim C3: the admin asks to delete post 7, which does not exist;
  \<open>db.session.delete(None)\<close> raises \<open>UnmappedInstanceError\<close>.
\<close>

theorem delete_missing_post_raises:
  "delete_post 7 db_with_post alice_session = Inl UnmappedInstanceError"
  by code_simp

text \<open>
  Claim C3, amended. For a post id that refers to no post, the delete action of the admin
  raises: \<open>UnmappedInstanceError\<close> from \<open>db.session.delete(None)\<close> for an id up to
  \<open>2\<^sup>6\<^sup>3 - 1\<close>, \<open>OverflowError\<close> from the lookup of line 270 for a larger one. The
  stored data are unchanged; the list-posts view succeeds afterwards and shows the same
  posts.
\<close>

theorem delete_missing_post:
  assumes "current_user db s = Some u" and "user_id u = 1" and "select_post db pid = None"
  shows "delete_post pid db s =
           Inl (if pid \<le> sqlite_max_integer then UnmappedInstanceError else OverflowError)
       \<and> db_after db (delete_post pid db s) = db
       \<and> get_all_posts (db_after db (delete_post pid db s)) s =
           Inr (db, s, Render ''index.html'' (AllPosts (blog_posts db)))"
proof -
  have "delete_post pid db s = delete_post_body pid db s"
    unfolding delete_post_def by (rule guard_admin [OF assms(1,2)])
  also have "\<dots> = Inl (if pid \<le> sqlite_max_integer then UnmappedInstanceError else OverflowError)"
    using assms(3)
    by (simp add: delete_post_body_def BlogPost_query_get_def session_delete_def)
  finally show ?thesis
    by (simp add: db_after_def get_all_posts_def BlogPost_query_all_def)
qed

text \<open>
  Alice, the admin, deletes the missing post 7, then the post \<open>2\<^sup>6\<^sup>3\<close>, and lists the
  posts after each.
\<close>

theorem delete_missing_post_witness:
  "current_user db_with_post alice_session = Some alice \<and> user_id alice = 1
   \<and> select_post db_with_post 7 = None
   \<and> delete_post 7 db_with_post alice_session = Inl UnmappedInstanceError
   \<and> get_all_posts (db_after db_with_post (delete_post 7 db_with_post alice_session)) alice_session =
        Inr (db_with_post, alice_session, Render ''index.html'' (AllPosts (blog_posts db_with_post)))
   \<and> select_post db_with_post 9223372036854775808 = None
   \<and> delete_post 9223372036854775808 db_with_post alice_session = Inl OverflowError
   \<and> get_all_posts (db_after db_with_post
          (delete_post 9223372036854775808 db_with_post alice_session)) alice_session =
        Inr (db_with_post, alice_session, Render ''index.html'' (AllPosts (blog_posts db_with_post)))"
proof -
  have i: "user_id alice = 1" by (simp add: alice_def)
  have q: "select_post db_with_post 7 = None" by code_simp
  have q': "select_post db_with_post 9223372036854775808 = None" by code_simp
  have small: "(7::int) \<le> sqlite_max_integer" by (simp add: sqlite_max_integer_def)
  have big: "\<not> (9223372036854775808::int) \<le> sqlite_max_integer"
    by (simp add: sqlite_max_integer_def)
  note t = delete_missing_post [OF current_user_alice_post i q]
  note t' = delete_missing_post [OF current_user_alice_post i q']
  from t small have a: "delete_post 7 db_with_post alice_session = Inl UnmappedInstanceError"
    by (simp only: if_True)
  from t have b: "get_all_posts (db_after db_with_post (delete_post 7 db_with_post alice_session))
        alice_session =
        Inr (db_with_post, alice_session, Render ''index.html'' (AllPosts (blog_posts db_with_post)))"
    by (elim conjE)
  from t' big have a': "delete_post 9223372036854775808 db_with_post alice_session =
      Inl OverflowError"
    by (simp only: if_False)
  from t' have b': "get_all_posts (db_after db_with_post
          (delete_post 9223372036854775808 db_with_post alice_session)) alice_session =
        Inr (db_with_post, alice_session, Render ''index.html'' (AllPosts (blog_posts db_with_post)))"
    by (elim conjE)
  show ?thesis
    by (intro conjI) (fact current_user_alice_post, fact i, fact q, fact a, fact b,
        fact q', fact a', fact b')
qed

subsection \<open>Start-up without a secret key\<close>

text \<open>
  Against claim C9: with an empty environment, no file named \<open>sqlite:///blog.db\<close> and a
  new database, the application starts; it does not fail. The secret key of the
  configuration is \<open>None\<close>.
\<close>

theorem startup_without_secret_key:
  "startup [] no_such_file new_database =
     Inr (\<lparr>SQLALCHEMY_DATABASE_URI = ''sqlite:///blog.db'',
           SQLALCHEMY_TRACK_MODIFICATIONS = False, SECRET_KEY = None\<rparr>, Some create_all)"
  by code_simp

lemma app_config_with_secret:
  "app_config ((''SECRET_KEY'', v) # environ) = (app_config environ)\<lparr>SECRET_KEY := Some v\<rparr>"
  by (simp add: app_config_def environ_get_def environ_get_default_def)

text \<open>
  Claim C9, amended. If \<open>SECRET_KEY\<close> is absent from the environment, start-up does not
  fail on that account: it raises exactly the exception that it raises with a secret key
  present (the one of \<open>db.create_all()\<close>, when the database cannot be opened), and when
  it does not raise, the configuration holds \<open>None\<close> as its secret key and is otherwise,
  like the database, as with the secret key present.
\<close>

theorem startup_ignores_secret_key:
  assumes "environ_get environ ''SECRET_KEY'' = None"
  shows "(\<forall>e. (startup environ isfile connect = Inl e) =
              (startup ((''SECRET_KEY'', v) # environ) isfile connect = Inl e))
       \<and> (\<forall>cfg db. startup environ isfile connect = Inr (cfg, db) \<longrightarrow>
             SECRET_KEY cfg = None
             \<and> startup ((''SECRET_KEY'', v) # environ) isfile connect =
                 Inr (cfg\<lparr>SECRET_KEY := Some v\<rparr>, db))"
proof -
  have none: "SECRET_KEY (app_config environ) = None"
    using assms by (simp add: app_config_def)
  show ?thesis
    using none
    by (auto simp: startup_def app_config_with_secret db_create_all_def Let_def
        split: sum.splits option.splits)
qed

text \<open>
  An environment with a database URL and no secret key: start-up succeeds on a database
  in use, whose rows are kept, and fails on a database that cannot be opened, with or
  without a secret key.
\<close>

theorem startup_ignores_secret_key_witness:
  "environ_get [(''DATABASE_URL'', ''postgres://db'')] ''SECRET_KEY'' = None
   \<and> startup [(''DATABASE_URL'', ''postgres://db'')] no_such_file database_in_use =
        Inr (\<lparr>SQLALCHEMY_DATABASE_URI = ''postgres://db'',
              SQLALCHEMY_TRACK_MODIFICATIONS = False, SECRET_KEY = None\<rparr>, Some db_two_users)
   \<and> startup [(''SECRET_KEY'', ''s3cret''), (''DATABASE_URL'', ''postgres://db'')]
          no_such_file database_in_use =
        Inr (\<lparr>SQLALCHEMY_DATABASE_URI = ''postgres://db'',
              SQLALCHEMY_TRACK_MODIFICATIONS = False, SECRET_KEY = Some ''s3cret''\<rparr>,
             Some db_two_users)
   \<and> startup [(''DATABASE_URL'', ''postgres://db'')] no_such_file no_database =
        Inl OperationalError
   \<and> startup [(''SECRET_KEY'', ''s3cret''), (''DATABASE_URL'', ''postgres://db'')]
          no_such_file no_database =
        Inl OperationalError"
proof -
  have h: "environ_get [(''DATABASE_URL'', ''postgres://db'')] ''SECRET_KEY'' = None"
    by (simp add: environ_get_def)
  have a: "startup [(''DATABASE_URL'', ''postgres://db'')] no_such_file database_in_use =
        Inr (\<lparr>SQLALCHEMY_DATABASE_URI = ''postgres://db'',
              SQLALCHEMY_TRACK_MODIFICATIONS = False, SECRET_KEY = None\<rparr>, Some db_two_users)"
    by code_simp
  have b: "startup [(''DATABASE_URL'', ''postgres://db'')] no_such_file no_database =
        Inl OperationalError"
    by code_simp
  note t = startup_ignores_secret_key [OF h, of no_such_file _ "''s3cret''"]
  from t [of database_in_use] a
  have "startup [(''SECRET_KEY'', ''s3cret''), (''DATABASE_URL'', ''postgres://db'')]
          no_such_file database_in_use =
        Inr (\<lparr>SQLALCHEMY_DATABASE_URI = ''postgres://db'',
               SQLALCHEMY_TRACK_MODIFICATIONS = False, SECRET_KEY = None\<rparr>
               \<lparr>SECRET_KEY := Some ''s3cret''\<rparr>, Some db_two_users)"
    by blast
  then have a': "startup [(''SECRET_KEY'', ''s3cret''), (''DATABASE_URL'', ''postgres://db'')]
          no_such_file database_in_use =
        Inr (\<lparr>SQLALCHEMY_DATABASE_URI = ''postgres://db'',
              SQLALCHEMY_TRACK_MODIFICATIONS = False, SECRET_KEY = Some ''s3cret''\<rparr>,
             Some db_two_users)"
    by simp
  from t [of no_database] b
  have b': "startup [(''SECRET_KEY'', ''s3cret''), (''DATABASE_URL'', ''postgres://db'')]
          no_such_file no_database =
        Inl OperationalError"
    by blast
  show ?thesis
    by (intro conjI) (fact h, fact a, fact a', fact b, fact b')
qed

subsection \<open>Registering an email twice\<close>

text \<open>
  Against claim C2: Alice is registered; a second valid registration with her email ends
  in the storage engine's \<open>IntegrityError\<close>, which the handler does not catch. No flash
  message is produced.
\<close>

theorem register_duplicate_email_raises:
  "register sample_hash unicode_excerpt alice_form db_alice anonymous = Inl IntegrityError"
  by code_simp

text \<open>
  Claim C2, amended. When a user with email \<open>e\<close> exists, a registration submission with
  email \<open>e\<close> inserts no row and leaves the session as it was; if the form validates, the
  request ends in the uncaught \<open>IntegrityError\<close> of the commit, and otherwise the
  registration form is rendered again.
\<close>

theorem register_duplicate_email:
  assumes "register_email form \<in> set (map user_email (users db))"
  shows "db_after db (register g ud form db s) = db
       \<and> session_after s (register g ud form db s) = s
       \<and> (if register_validate_on_submit form
           then register g ud form db s = Inl IntegrityError
           else register g ud form db s = Inr (db, s, Render ''register.html'' NoContext))"
  using assms by (simp add: register_def add_user_def db_after_def session_after_def)

text \<open>Alice's form, submitted again when Alice and Bob are registered.\<close>

theorem register_duplicate_email_witness:
  "register_email alice_form \<in> set (map user_email (users db_two_users))
   \<and> register_validate_on_submit alice_form
   \<and> db_after db_two_users (register sample_hash unicode_excerpt alice_form db_two_users anonymous) = db_two_users
   \<and> register sample_hash unicode_excerpt alice_form db_two_users anonymous = Inl IntegrityError"
proof -
  have h: "register_email alice_form \<in> set (map user_email (users db_two_users))"
    by code_simp
  have v: "register_validate_on_submit alice_form" by (simp add: alice_form_def)
  note t = register_duplicate_email [OF h, of sample_hash unicode_excerpt anonymous]
  from t have a: "db_after db_two_users (register sample_hash unicode_excerpt alice_form db_two_users anonymous) =
      db_two_users" by (rule conjunct1)
  from t v have b: "register sample_hash unicode_excerpt alice_form db_two_users anonymous = Inl IntegrityError"
    by (simp only: if_True)
  from a b h v show ?thesis by blast
qed

subsection \<open>Editing a post\<close>

text \<open>
  Every valid edit submission of the admin on an existing post raises: line 258 gives the
  string \<open>current_user.name\<close> to the relationship \<open>post.author\<close>. The commit of line 260
  is never reached.
\<close>

lemma edit_post_valid_raises:
  assumes "current_user db s = Some u" and "user_id u = 1"
    and "BlogPost_query_get db pid = Inr (Some post)" and "post_validate_on_submit form"
  shows "edit_post pid form db s = Inl AttributeError"
proof -
  have "edit_post pid form db s = edit_post_body pid form db s"
    unfolding edit_post_def by (rule guard_admin [OF assms(1,2)])
  also have "\<dots> = Inl AttributeError"
    using assms
    by (simp add: edit_post_body_def relationship_set_def CreatePostForm_of_post_def
        post_validate_on_submit_def)
  finally show ?thesis .
qed

text \<open>
  A request without form data (a GET) shows the form filled from the stored post.
\<close>

lemma edit_post_shows_post:
  assumes "current_user db s = Some u" and "user_id u = 1"
    and "BlogPost_query_get db pid = Inr (Some post)" and "\<not> post_is_submitted form"
  shows "edit_post pid form db s =
     Inr (db, s, Render ''make-post.html''
       (FormContext (form\<lparr>form_title := post_title post, form_subtitle := post_subtitle post,
                          form_img_url := post_img_url post, form_body := post_body post\<rparr>) True))"
proof -
  have "edit_post pid form db s = edit_post_body pid form db s"
    unfolding edit_post_def by (rule guard_admin [OF assms(1,2)])
  also have "\<dots> = Inr (db, s, Render ''make-post.html''
       (FormContext (form\<lparr>form_title := post_title post, form_subtitle := post_subtitle post,
                          form_img_url := post_img_url post, form_body := post_body post\<rparr>) True))"
    using assms(3,4)
    by (simp add: edit_post_body_def CreatePostForm_of_post_def post_validate_on_submit_def)
  finally show ?thesis .
qed

text \<open>
  Claim C6 says that a successful edit by the admin updates title, subtitle, body and image,
  sets the author display field to the editor's name, and keeps id and date. The code does
  not get that far: Alice, the admin, submits a valid edit of the existing post 1, and the
  handler raises \<open>AttributeError\<close>; nothing is updated.
\<close>

theorem edit_post_raises:
  "edit_post 1 changed_form db_with_post alice_session = Inl AttributeError"
  by code_simp

subsection \<open>Creating a post\<close>

text \<open>
  Against claim C8: the form \<open>hello_form\<close> is valid, and the admin submits it when a post
  titled \<open>Hello\<close> exists already. \<open>blog_posts.title\<close> is unique, the commit raises, and
  no post is created.
\<close>

theorem add_new_post_duplicate_title:
  "add_new_post march_5 hello_form db_with_post alice_session = Inl IntegrityError"
  by code_simp

lemma select_post_new:
  "post_id p = next_id (map post_id (blog_posts db)) \<Longrightarrow>
   select_post (db\<lparr>blog_posts := blog_posts db @ [p]\<rparr>) (post_id p) = Some p"
proof -
  assume fresh: "post_id p = next_id (map post_id (blog_posts db))"
  have "\<forall>q \<in> set (blog_posts db). \<not> post_id q = post_id p"
    using next_id_fresh [of "map post_id (blog_posts db)"] fresh by (auto simp: image_iff)
  then show ?thesis
    by (simp add: select_post_def find_append_fresh)
qed

text \<open>
  Claim C8, amended. For every valid new-post submission by the admin whose title is not
  the title of an existing post, a post is added under a fresh id; fetched by that id, it
  has the submitted title, subtitle, body and image URL, its author is the current user,
  and its date is the day of the request, formatted by \<open>strftime("%B %d, %Y")\<close>.
  The post is the row stored under its key, and \<open>BlogPost.query.get\<close> returns it for
  every key that it accepts (keys count up from 1; one beyond \<open>2\<^sup>6\<^sup>3 - 1\<close> cannot be
  looked up).
\<close>

theorem add_new_post_fetch:
  assumes "current_user db s = Some u" and "user_id u = 1"
    and "post_validate_on_submit form"
    and "form_title form \<notin> set (map post_title (blog_posts db))"
  shows "\<exists>db' p. add_new_post today form db s = Inr (db', s, Redirect ''get_all_posts'' None)
           \<and> blog_posts db' = blog_posts db @ [p]
           \<and> post_id p \<notin> set (map post_id (blog_posts db))
           \<and> select_post db' (post_id p) = Some p
           \<and> (post_id p \<le> sqlite_max_integer \<longrightarrow>
                BlogPost_query_get db' (post_id p) = Inr (Some p))
           \<and> post_title p = form_title form
           \<and> post_subtitle p = form_subtitle form
           \<and> post_body p = form_body form
           \<and> post_img_url p = form_img_url form
           \<and> post_author_id p = Some (user_id u)
           \<and> post_date p = strftime today"
proof -
  let ?p = "\<lparr>post_id = next_id (map post_id (blog_posts db)), post_author_id = Some (user_id u),
              post_title = form_title form, post_subtitle = form_subtitle form,
              post_date = strftime today, post_body = form_body form,
              post_img_url = form_img_url form\<rparr>"
  let ?db' = "db\<lparr>blog_posts := blog_posts db @ [?p]\<rparr>"
  have "add_new_post today form db s = add_new_post_body today form db s"
    unfolding add_new_post_def by (rule guard_admin [OF assms(1,2)])
  also have "\<dots> = Inr (?db', s, Redirect ''get_all_posts'' None)"
    using assms(1,3,4)
    by (simp add: add_new_post_body_def py_current_user_def relationship_set_def
        add_post_def Let_def)
  finally have run: "add_new_post today form db s = Inr (?db', s, Redirect ''get_all_posts'' None)" .
  have fresh: "post_id ?p \<notin> set (map post_id (blog_posts db))"
    using next_id_fresh [of "map post_id (blog_posts db)"] by simp
  have sel: "select_post ?db' (post_id ?p) = Some ?p"
    by (rule select_post_new) simp
  have get: "post_id ?p \<le> sqlite_max_integer \<longrightarrow>
      BlogPost_query_get ?db' (post_id ?p) = Inr (Some ?p)"
    using sel by (simp add: BlogPost_query_get_def)
  show ?thesis
    apply (rule exI [of _ ?db'])
    apply (rule exI [of _ ?p])
    using run fresh sel get apply simp
    done
qed

text \<open>
  Alice creates the post \<open>Hello\<close> on March 5, 2024; it is post 1, and both lookups
  return it.
\<close>

theorem add_new_post_fetch_witness:
  "current_user db_two_users alice_session = Some alice \<and> user_id alice = 1
   \<and> post_validate_on_submit hello_form
   \<and> form_title hello_form \<notin> set (map post_title (blog_posts db_two_users))
   \<and> add_new_post march_5 hello_form db_two_users alice_session =
        Inr (db_with_post, alice_session, Redirect ''get_all_posts'' None)
   \<and> blog_posts db_with_post = blog_posts db_two_users @ [hello_post]
   \<and> post_id hello_post = 1
   \<and> select_post db_with_post (post_id hello_post) = Some hello_post
   \<and> BlogPost_query_get db_with_post (post_id hello_post) = Inr (Some hello_post)
   \<and> post_title hello_post = form_title hello_form
   \<and> post_subtitle hello_post = form_subtitle hello_form
   \<and> post_body hello_post = form_body hello_form
   \<and> post_img_url hello_post = form_img_url hello_form
   \<and> post_author_id hello_post = Some (user_id alice)
   \<and> post_date hello_post = strftime march_5"
proof -
  have i: "user_id alice = 1" by (simp add: alice_def)
  have v: "post_validate_on_submit hello_form"
    by (simp add: hello_form_def post_validate_on_submit_def)
  have t: "form_title hello_form \<notin> set (map post_title (blog_posts db_two_users))"
    by (simp add: db_two_users_def)
  have one: "post_id hello_post = 1" by (simp add: hello_post_def)
  have posts: "blog_posts db_with_post = blog_posts db_two_users @ [hello_post]"
    by (simp add: db_with_post_def db_two_users_def)
  from add_new_post_fetch [OF current_user_alice i v t, of march_5]
  obtain db' p where run: "add_new_post march_5 hello_form db_two_users alice_session =
                   Inr (db', alice_session, Redirect ''get_all_posts'' None)"
    and ps: "blog_posts db' = blog_posts db_two_users @ [p]"
    and sel: "select_post db' (post_id p) = Some p"
    and get: "post_id p \<le> sqlite_max_integer \<longrightarrow>
                BlogPost_query_get db' (post_id p) = Inr (Some p)"
    and fields: "post_title p = form_title hello_form" "post_subtitle p = form_subtitle hello_form"
      "post_body p = form_body hello_form" "post_img_url p = form_img_url hello_form"
      "post_author_id p = Some (user_id alice)" "post_date p = strftime march_5"
    by blast
  from run add_hello_post have db': "db' = db_with_post" by simp
  from ps posts have p: "p = hello_post" unfolding db' by simp
  have small: "post_id hello_post \<le> sqlite_max_integer"
    by (simp add: one sqlite_max_integer_def)
  from get small have get': "BlogPost_query_get db_with_post (post_id hello_post) =
      Inr (Some hello_post)"
    unfolding db' p by blast
  note f = fields [unfolded p] and sel' = sel [unfolded db' p]
  show ?thesis
    by (intro conjI) (fact current_user_alice, fact i, fact v, fact t, fact add_hello_post,
        fact posts, fact one, fact sel', fact get', fact f(1), fact f(2), fact f(3),
        fact f(4), fact f(5), fact f(6))
qed

subsection \<open>The stored name\<close>

text \<open>
  Against claim C10: the names \<open>[223, 97]\<close> and \<open>[7838, 97]\<close> (a sharp s, small and
  capital, followed by \<open>a\<close>) differ only in letter case: \<open>str.lower()\<close> gives the same for
  both. Registered by two users, they are stored as \<open>Ssa\<close> and as the capital sharp s
  followed by \<open>a\<close>: two different names.
\<close>

theorem register_sharp_s_names:
  "lower unicode_excerpt (register_name capital_sharp_form) =
     lower unicode_excerpt (register_name sharp_form)
   \<and> user_name (last (users (db_after db_alice
        (register sample_hash unicode_excerpt sharp_form db_alice anonymous)))) = [83, 115, 97]
   \<and> user_name (last (users (db_after db_alice
        (register sample_hash unicode_excerpt capital_sharp_form db_alice anonymous)))) = [7838, 97]"
  by code_simp

text \<open>
  On ASCII names the tables of the database are the usual ones, \<open>str.lower()\<close> lower-cases
  each letter, and \<open>str.title()\<close> keeps the length: it upper-cases a letter that is first
  or follows a code point that is not a letter, and lower-cases a letter that follows a
  letter.
\<close>

lemma agrees_on_asciiD:
  assumes "agrees_on_ascii ud" and "c < 128"
  shows "IsCased ud c = ascii_letter c" and "ToTitleFull ud c = [ascii_upper c]"
    and "ToLowerFull ud c = [ascii_lower c]"
  using assms by (simp_all add: agrees_on_ascii_def list_all_iff)

lemma lower_ucs4_ascii:
  assumes "agrees_on_ascii ud" and "c < 128"
  shows "lower_ucs4 ud before c after = [ascii_lower c]"
  using assms by (simp add: lower_ucs4_def agrees_on_asciiD)

lemma do_lower_ascii:
  assumes "agrees_on_ascii ud"
  shows "is_ascii s \<Longrightarrow> do_lower ud before s = map ascii_lower s"
proof (induction s arbitrary: before)
  case Nil
  show ?case by simp
next
  case (Cons c cs)
  then have c: "c < 128" and cs: "is_ascii cs" by (simp_all add: is_ascii_def)
  show ?case using Cons.IH [OF cs] lower_ucs4_ascii [OF assms c] by simp
qed

lemma lower_ascii:
  "agrees_on_ascii ud \<Longrightarrow> is_ascii s \<Longrightarrow> lower ud s = map ascii_lower s"
  by (simp add: lower_def do_lower_ascii)

lemma do_title_ascii:
  assumes "agrees_on_ascii ud"
  shows "is_ascii s \<Longrightarrow>
     length (do_title ud before p s) = length s
     \<and> (\<forall>i < length s. do_title ud before p s ! i =
           (if (if i = 0 then \<not> p else \<not> ascii_letter (s ! (i - 1)))
            then ascii_upper (s ! i) else ascii_lower (s ! i)))"
proof (induction s arbitrary: before p)
  case Nil
  show ?case by simp
next
  case (Cons c cs)
  then have c: "c < 128" and cs: "is_ascii cs" by (simp_all add: is_ascii_def)
  let ?x = "if p then ascii_lower c else ascii_upper c"
  let ?rest = "do_title ud (c # before) (ascii_letter c) cs"
  have step: "do_title ud before p (c # cs) = ?x # ?rest"
    using lower_ucs4_ascii [OF assms c] agrees_on_asciiD [OF assms c] by simp
  note IH = Cons.IH [OF cs, of "c # before" "ascii_letter c"]
  have len: "length (do_title ud before p (c # cs)) = length (c # cs)"
    unfolding step using IH by simp
  have nth: "do_title ud before p (c # cs) ! i =
           (if (if i = 0 then \<not> p else \<not> ascii_letter ((c # cs) ! (i - 1)))
            then ascii_upper ((c # cs) ! i) else ascii_lower ((c # cs) ! i))"
    if "i < length (c # cs)" for i
  proof (cases i)
    case 0
    then show ?thesis unfolding step by simp
  next
    case (Suc j)
    with that have j: "j < length cs" by simp
    from IH j have "?rest ! j =
           (if (if j = 0 then \<not> ascii_letter c else \<not> ascii_letter (cs ! (j - 1)))
            then ascii_upper (cs ! j) else ascii_lower (cs ! j))"
      by blast
    then show ?thesis unfolding step using Suc by (cases j) simp_all
  qed
  from len nth show ?case by blast
qed

lemma title_ascii:
  assumes "agrees_on_ascii ud" and "is_ascii s"
  shows "length (title ud s) = length s"
    and "i < length s \<Longrightarrow> title ud s ! i =
           (if i = 0 \<or> \<not> ascii_letter (s ! (i - 1))
            then ascii_upper (s ! i) else ascii_lower (s ! i))"
  using do_title_ascii [OF assms, of "[]" False] by (auto simp: title_def)

lemma ascii_upper_lower: "ascii_upper (ascii_lower c) = ascii_upper c"
  by (auto simp: ascii_upper_def ascii_lower_def ascii_upper_letter_def ascii_lower_letter_def)

lemma ascii_lower_lower: "ascii_lower (ascii_lower c) = ascii_lower c"
  by (auto simp: ascii_lower_def ascii_upper_letter_def)

lemma ascii_letter_lower: "ascii_letter (ascii_lower c) = ascii_letter c"
  by (auto simp: ascii_letter_def ascii_lower_def ascii_upper_letter_def ascii_lower_letter_def)

lemma same_case_folding:
  assumes "ascii_lower c = ascii_lower d"
  shows "ascii_upper c = ascii_upper d" and "ascii_letter c = ascii_letter d"
proof -
  show "ascii_upper c = ascii_upper d"
    using ascii_upper_lower [of c] ascii_upper_lower [of d] assms by simp
  show "ascii_letter c = ascii_letter d"
    using ascii_letter_lower [of c] ascii_letter_lower [of d] assms by simp
qed

lemma title_ascii_case:
  assumes a: "agrees_on_ascii ud" "is_ascii s" and b: "agrees_on_ascii ud'" "is_ascii t"
    and same: "lower ud' t = lower ud s"
  shows "title ud' t = title ud s"
proof (rule nth_equalityI)
  from same have m: "map ascii_lower t = map ascii_lower s"
    by (simp add: lower_ascii a b)
  then have len: "length t = length s" by (rule map_eq_imp_length_eq)
  show "length (title ud' t) = length (title ud s)"
    by (simp add: title_ascii(1) a b len)
  fix i assume "i < length (title ud' t)"
  then have i: "i < length t" by (simp add: title_ascii(1) b)
  with len have i': "i < length s" by simp
  have at: "ascii_lower (t ! j) = ascii_lower (s ! j)" if "j < length t" for j
  proof -
    from that len have "map ascii_lower t ! j = ascii_lower (t ! j)"
      "map ascii_lower s ! j = ascii_lower (s ! j)" by simp_all
    with m show ?thesis by simp
  qed
  have here: "ascii_upper (t ! i) = ascii_upper (s ! i)" "ascii_lower (t ! i) = ascii_lower (s ! i)"
    using at [OF i] same_case_folding(1) by blast+
  have prev: "ascii_letter (t ! (i - 1)) = ascii_letter (s ! (i - 1))"
  proof -
    from i have "i - 1 < length t" by simp
    from at [OF this] show ?thesis by (rule same_case_folding(2))
  qed
  have "title ud' t ! i =
      (if i = 0 \<or> \<not> ascii_letter (t ! (i - 1)) then ascii_upper (t ! i) else ascii_lower (t ! i))"
    by (rule title_ascii(2) [OF b i])
  also have "\<dots> =
      (if i = 0 \<or> \<not> ascii_letter (s ! (i - 1)) then ascii_upper (s ! i) else ascii_lower (s ! i))"
    by (simp only: here prev)
  also have "\<dots> = title ud s ! i"
    by (rule title_ascii(2) [OF a i', symmetric])
  finally show "title ud' t ! i = title ud s ! i" .
qed

lemma register_success:
  assumes "register g ud form db s = Inr (db', s', Redirect ''get_all_posts'' None)"
  shows "\<exists>u. users db' = users db @ [u] \<and> user_name u = title ud (register_name form)
            \<and> user_email u = register_email form
            \<and> session_user_id s' = Some (user_id u)"
proof -
  let ?u = "\<lparr>user_id = next_id (map user_id (users db)), user_email = register_email form,
              user_password = g (register_password form),
              user_name = title ud (register_name form)\<rparr>"
  have valid: "register_validate_on_submit form"
  proof (rule ccontr)
    assume "\<not> register_validate_on_submit form"
    then have "register g ud form db s = Inr (db, s, Render ''register.html'' NoContext)"
      by (simp add: register_def)
    with assms show False by simp
  qed
  have fresh: "register_email form \<notin> set (map user_email (users db))"
  proof
    assume "register_email form \<in> set (map user_email (users db))"
    with valid have "register g ud form db s = Inl IntegrityError"
      by (simp add: register_def add_user_def)
    with assms show False by simp
  qed
  from valid fresh have "register g ud form db s =
      Inr (db\<lparr>users := users db @ [?u]\<rparr>, login_user ?u s, Redirect ''get_all_posts'' None)"
    by (simp add: register_def add_user_def Let_def)
  with assms have db': "db' = db\<lparr>users := users db @ [?u]\<rparr>" and s': "s' = login_user ?u s"
    by simp_all
  show ?thesis
    by (rule exI [of _ ?u]) (simp add: db' s' login_user_def)
qed

text \<open>
  Claim C10, amended. A successful registration appends one user whose name is
  \<open>str.title()\<close> of the submitted name. When the submitted name is ASCII, the stored name
  has the same length, each letter that is first or follows a code point that is not a
  letter upper-cased, and each letter that follows a letter lower-cased; and any other
  successful registration of an ASCII name with the same \<open>str.lower()\<close> (a name that
  differs only in letter case) stores the same name.
\<close>

theorem register_name_title_cased:
  assumes "register g ud form db s = Inr (db', s', Redirect ''get_all_posts'' None)"
  shows "\<exists>u. users db' = users db @ [u] \<and> user_name u = title ud (register_name form)
       \<and> (agrees_on_ascii ud \<and> is_ascii (register_name form) \<longrightarrow>
            length (user_name u) = length (register_name form)
            \<and> (\<forall>i < length (register_name form).
                  user_name u ! i =
                    (if i = 0 \<or> \<not> ascii_letter (register_name form ! (i - 1))
                     then ascii_upper (register_name form ! i)
                     else ascii_lower (register_name form ! i)))
            \<and> (\<forall>g2 ud2 form2 db2 s2 db2' s2'.
                  register g2 ud2 form2 db2 s2 = Inr (db2', s2', Redirect ''get_all_posts'' None)
                  \<and> agrees_on_ascii ud2 \<and> is_ascii (register_name form2)
                  \<and> lower ud2 (register_name form2) = lower ud (register_name form)
                  \<longrightarrow> user_name (last (users db2')) = user_name u))"
proof -
  from register_success [OF assms] obtain u where
    u: "users db' = users db @ [u]" "user_name u = title ud (register_name form)" by blast
  have ascii: "length (user_name u) = length (register_name form)
            \<and> (\<forall>i < length (register_name form).
                  user_name u ! i =
                    (if i = 0 \<or> \<not> ascii_letter (register_name form ! (i - 1))
                     then ascii_upper (register_name form ! i)
                     else ascii_lower (register_name form ! i)))
            \<and> (\<forall>g2 ud2 form2 db2 s2 db2' s2'.
                  register g2 ud2 form2 db2 s2 = Inr (db2', s2', Redirect ''get_all_posts'' None)
                  \<and> agrees_on_ascii ud2 \<and> is_ascii (register_name form2)
                  \<and> lower ud2 (register_name form2) = lower ud (register_name form)
                  \<longrightarrow> user_name (last (users db2')) = user_name u)"
    if a: "agrees_on_ascii ud" "is_ascii (register_name form)"
  proof (intro conjI allI impI)
    show "length (user_name u) = length (register_name form)"
      by (simp add: u(2) title_ascii(1) [OF a])
  next
    fix i assume "i < length (register_name form)"
    then show "user_name u ! i =
                    (if i = 0 \<or> \<not> ascii_letter (register_name form ! (i - 1))
                     then ascii_upper (register_name form ! i)
                     else ascii_lower (register_name form ! i))"
      unfolding u(2) by (rule title_ascii(2) [OF a])
  next
    fix g2 ud2 form2 db2 s2 db2' s2'
    assume h: "register g2 ud2 form2 db2 s2 = Inr (db2', s2', Redirect ''get_all_posts'' None)
                  \<and> agrees_on_ascii ud2 \<and> is_ascii (register_name form2)
                  \<and> lower ud2 (register_name form2) = lower ud (register_name form)"
    then have run: "register g2 ud2 form2 db2 s2 = Inr (db2', s2', Redirect ''get_all_posts'' None)"
      and b: "agrees_on_ascii ud2" "is_ascii (register_name form2)"
      and same: "lower ud2 (register_name form2) = lower ud (register_name form)"
      by blast+
    from register_success [OF run] obtain w where
      w: "users db2' = users db2 @ [w]" "user_name w = title ud2 (register_name form2)" by blast
    from title_ascii_case [OF a b same] w u(2)
    show "user_name (last (users db2')) = user_name u" by simp
  qed
  show ?thesis
    by (rule exI [of _ u]) (use u ascii in blast)
qed

text \<open>
  \<open>alice liddell\<close> is stored as \<open>Alice Liddell\<close>, and so is \<open>ALICE LIDDELL\<close>.
\<close>

lemma register_alice_upper:
  "register sample_hash unicode_excerpt alice_form_upper db_alice anonymous =
     Inr (\<lparr>users = [alice, \<lparr>user_id = 2, user_email = ''al@example.com'',
             user_password = ''terces'', user_name = codepoints ''Alice Liddell''\<rparr>],
           blog_posts = [], comments = []\<rparr>,
          bob_session, Redirect ''get_all_posts'' None)"
  by code_simp

theorem register_name_title_cased_witness:
  "register sample_hash unicode_excerpt alice_form create_all anonymous =
     Inr (db_alice, alice_session, Redirect ''get_all_posts'' None)
   \<and> agrees_on_ascii unicode_excerpt
   \<and> is_ascii (register_name alice_form)
   \<and> register_name alice_form = codepoints ''alice liddell''
   \<and> user_name (last (users db_alice)) = codepoints ''Alice Liddell''
   \<and> length (user_name (last (users db_alice))) = length (register_name alice_form)
   \<and> user_name (last (users db_alice)) ! 6 = ascii_upper (register_name alice_form ! 6)
   \<and> is_ascii (register_name alice_form_upper)
   \<and> lower unicode_excerpt (register_name alice_form_upper) =
       lower unicode_excerpt (register_name alice_form)
   \<and> user_name (last (users (db_after db_alice
        (register sample_hash unicode_excerpt alice_form_upper db_alice anonymous)))) =
       codepoints ''Alice Liddell''"
proof -
  have ag: "agrees_on_ascii unicode_excerpt" by code_simp
  have a1: "is_ascii (register_name alice_form)" by code_simp
  have a2: "is_ascii (register_name alice_form_upper)" by code_simp
  have n: "register_name alice_form = codepoints ''alice liddell''" by (simp add: alice_form_def)
  have l: "lower unicode_excerpt (register_name alice_form_upper) =
       lower unicode_excerpt (register_name alice_form)"
    by code_simp
  have t: "title unicode_excerpt (register_name alice_form) = codepoints ''Alice Liddell''"
    by code_simp
  have sp: "(6::nat) < length (register_name alice_form)
      \<and> \<not> ((6::nat) = 0 \<or> \<not> \<not> ascii_letter (register_name alice_form ! (6 - 1)))"
    by code_simp
  from register_name_title_cased [OF register_alice] obtain u where
    u: "users db_alice = users create_all @ [u]"
       "user_name u = title unicode_excerpt (register_name alice_form)"
    and asc: "agrees_on_ascii unicode_excerpt \<and> is_ascii (register_name alice_form) \<longrightarrow>
            length (user_name u) = length (register_name alice_form)
            \<and> (\<forall>i < length (register_name alice_form).
                  user_name u ! i =
                    (if i = 0 \<or> \<not> ascii_letter (register_name alice_form ! (i - 1))
                     then ascii_upper (register_name alice_form ! i)
                     else ascii_lower (register_name alice_form ! i)))
            \<and> (\<forall>g2 ud2 form2 db2 s2 db2' s2'.
                  register g2 ud2 form2 db2 s2 = Inr (db2', s2', Redirect ''get_all_posts'' None)
                  \<and> agrees_on_ascii ud2 \<and> is_ascii (register_name form2)
                  \<and> lower ud2 (register_name form2) = lower unicode_excerpt (register_name alice_form)
                  \<longrightarrow> user_name (last (users db2')) = user_name u)"
    by blast
  from u(1) have lu: "last (users db_alice) = u" by simp
  from asc ag a1 have len: "length (user_name u) = length (register_name alice_form)"
    and nth: "\<And>i. i < length (register_name alice_form) \<Longrightarrow>
                  user_name u ! i =
                    (if i = 0 \<or> \<not> ascii_letter (register_name alice_form ! (i - 1))
                     then ascii_upper (register_name alice_form ! i)
                     else ascii_lower (register_name alice_form ! i))"
    and other: "\<And>g2 ud2 form2 db2 s2 db2' s2'.
                  register g2 ud2 form2 db2 s2 = Inr (db2', s2', Redirect ''get_all_posts'' None)
                  \<Longrightarrow> agrees_on_ascii ud2 \<Longrightarrow> is_ascii (register_name form2)
                  \<Longrightarrow> lower ud2 (register_name form2) = lower unicode_excerpt (register_name alice_form)
                  \<Longrightarrow> user_name (last (users db2')) = user_name u"
    by blast+
  have stored: "user_name (last (users db_alice)) = codepoints ''Alice Liddell''"
    unfolding lu u(2) by (rule t)
  have len': "length (user_name (last (users db_alice))) = length (register_name alice_form)"
    unfolding lu by (rule len)
  have six: "user_name (last (users db_alice)) ! 6 = ascii_upper (register_name alice_form ! 6)"
    unfolding lu using nth [of 6] sp by presburger
  from other [OF register_alice_upper ag a2 l]
  have "user_name (last (users (db_after db_alice
        (register sample_hash unicode_excerpt alice_form_upper db_alice anonymous)))) =
       user_name u"
    by (simp add: register_alice_upper db_after_def)
  then have two: "user_name (last (users (db_after db_alice
        (register sample_hash unicode_excerpt alice_form_upper db_alice anonymous)))) =
       codepoints ''Alice Liddell''"
    unfolding u(2) t .
  show ?thesis
    by (intro conjI) (fact register_alice, fact ag, fact a1, fact n, fact stored, fact len',
        fact six, fact a2, fact l, fact two)
qed

subsection \<open>What a comment refers to\<close>

text \<open>
  Every request keeps the references of the stored comments intact: users are never
  removed, a new comment takes its author from the current user and its parent from the
  lookup of the post, and deleting a post sets the parent of its comments to NULL.
\<close>

lemma comment_refs_ok_mono:
  assumes "comment_refs_ok db c"
    and "set (map user_id (users db)) \<subseteq> set (map user_id (users db'))"
    and "set (map post_id (blog_posts db)) \<subseteq> set (map post_id (blog_posts db'))"
  shows "comment_refs_ok db' c"
  using assms unfolding comment_refs_ok_def
  by (cases "comment_author_id c"; cases "comment_post_id c") auto

lemma comments_ok_mono:
  assumes "comments_ok db" and "comments db' = comments db"
    and "set (map user_id (users db)) \<subseteq> set (map user_id (users db'))"
    and "set (map post_id (blog_posts db)) \<subseteq> set (map post_id (blog_posts db'))"
  shows "comments_ok db'"
  using assms comment_refs_ok_mono [of db _ db']
  by (auto simp: comments_ok_def list_all_iff)

lemma comments_ok_register: "comments_ok db \<Longrightarrow> comments_ok (db_after db (register g ud form db s))"
proof -
  assume ok: "comments_ok db"
  let ?db' = "db_after db (register g ud form db s)"
  have c: "comments ?db' = comments db"
    by (simp add: register_def add_user_def db_after_def Let_def)
  have u: "set (map user_id (users db)) \<subseteq> set (map user_id (users ?db'))"
    by (auto simp: register_def add_user_def db_after_def Let_def)
  have p: "set (map post_id (blog_posts db)) \<subseteq> set (map post_id (blog_posts ?db'))"
    by (simp add: register_def add_user_def db_after_def Let_def)
  show ?thesis by (rule comments_ok_mono [OF ok c u p])
qed

lemma comments_ok_add_comment:
  assumes "comments_ok db" and "u \<in> set (users db)"
    and "p = None \<or> (\<exists>q \<in> set (blog_posts db). p = Some (post_id q))"
  shows "comments_ok (add_comment db txt (Some (user_id u)) p)"
  using assms
  by (auto simp: comments_ok_def add_comment_def comment_refs_ok_def list_all_iff
      split: option.splits)

lemma show_post_stores:
  assumes "comment_validate_on_submit form" and "current_user db s = Some u"
    and "pid \<le> sqlite_max_integer"
  shows "db_after db (show_post today pid form db s) =
           add_comment db (comment_text_data form) (Some (user_id u))
             (map_option post_id (select_post db pid))"
  using assms
  by (simp add: show_post_def BlogPost_query_get_in_range db_after_def is_authenticated_def
      py_current_user_def py_post_def relationship_set_def Let_def split: option.splits)

lemma show_post_overflow:
  assumes "sqlite_max_integer < pid"
  shows "show_post today pid form db s = Inl OverflowError"
  using assms by (simp add: show_post_def BlogPost_query_get_overflow)

lemma comments_ok_show_post:
  assumes "comments_ok db"
  shows "comments_ok (db_after db (show_post today pid form db s))"
proof (cases "comment_validate_on_submit form \<and> current_user db s \<noteq> None
    \<and> pid \<le> sqlite_max_integer")
  case False
  then have "db_after db (show_post today pid form db s) = db"
    by (auto simp: show_post_def BlogPost_query_get_def db_after_def is_authenticated_def Let_def)
  with assms show ?thesis by simp
next
  case True
  then obtain u where cu: "current_user db s = Some u" by auto
  then have mem: "u \<in> set (users db)" by (simp add: current_user_SomeD)
  let ?p = "map_option post_id (select_post db pid)"
  have p: "?p = None \<or> (\<exists>q \<in> set (blog_posts db). ?p = Some (post_id q))"
    by (cases "select_post db pid") (auto dest: select_post_SomeD)
  have "db_after db (show_post today pid form db s) =
        add_comment db (comment_text_data form) (Some (user_id u)) ?p"
    using True cu by (simp add: show_post_stores)
  then show ?thesis using comments_ok_add_comment [OF assms mem p] by simp
qed

lemma comments_ok_add_new_post_body:
  assumes "comments_ok db"
  shows "comments_ok (db_after db (add_new_post_body today form db s))"
proof -
  let ?db' = "db_after db (add_new_post_body today form db s)"
  have c: "comments ?db' = comments db"
    by (simp add: add_new_post_body_def add_post_def db_after_def Let_def split: sum.splits)
  have u: "set (map user_id (users db)) \<subseteq> set (map user_id (users ?db'))"
    by (simp add: add_new_post_body_def add_post_def db_after_def Let_def split: sum.splits)
  have p: "set (map post_id (blog_posts db)) \<subseteq> set (map post_id (blog_posts ?db'))"
    by (auto simp: add_new_post_body_def add_post_def db_after_def Let_def split: sum.splits)
  show ?thesis by (rule comments_ok_mono [OF assms c u p])
qed

lemma comment_refs_ok_detach:
  assumes "comment_refs_ok db c"
    and u: "users db' = users db"
    and p: "blog_posts db' = filter (\<lambda>q. post_id q \<noteq> k) (blog_posts db)"
  shows "comment_refs_ok db' (if comment_post_id c = Some k then c\<lparr>comment_post_id := None\<rparr> else c)"
proof (cases "comment_post_id c")
  case None
  with assms(1) u show ?thesis
    by (simp add: comment_refs_ok_def split: option.splits)
next
  case (Some x)
  show ?thesis
  proof (cases "x = k")
    case True
    with Some assms(1) u show ?thesis
      by (simp add: comment_refs_ok_def split: option.splits)
  next
    case False
    from assms(1) Some obtain q where q: "q \<in> set (blog_posts db)" "post_id q = x"
      by (auto simp: comment_refs_ok_def split: option.splits)
    with False have "q \<in> set (blog_posts db')" by (simp add: p)
    with q(2) have "x \<in> set (map post_id (blog_posts db'))" by force
    with Some False assms(1) u show ?thesis
      by (simp add: comment_refs_ok_def split: option.splits)
  qed
qed

lemma comments_ok_session_delete:
  assumes "comments_ok db"
  shows "comments_ok (db\<lparr>blog_posts := filter (\<lambda>q. post_id q \<noteq> post_id post) (blog_posts db),
                   comments := map (\<lambda>c. if comment_post_id c = Some (post_id post)
                                          then c\<lparr>comment_post_id := None\<rparr> else c)
                                   (comments db)\<rparr>)"
    (is "comments_ok ?db'")
proof -
  let ?f = "\<lambda>c. if comment_post_id c = Some (post_id post)
                 then c\<lparr>comment_post_id := None\<rparr> else c"
  have "list_all (\<lambda>c. comment_refs_ok ?db' (?f c)) (comments db)"
    unfolding list_all_iff
  proof
    fix c assume "c \<in> set (comments db)"
    with assms have "comment_refs_ok db c" by (simp add: comments_ok_def list_all_iff)
    then show "comment_refs_ok ?db' (?f c)" by (rule comment_refs_ok_detach) simp_all
  qed
  then show ?thesis by (simp add: comments_ok_def list.pred_map comp_def)
qed

lemma comments_ok_delete_post_body:
  assumes "comments_ok db"
  shows "comments_ok (db_after db (delete_post_body pid db s))"
proof (cases "BlogPost_query_get db pid")
  case (Inl e)
  then have "db_after db (delete_post_body pid db s) = db"
    by (simp add: delete_post_body_def db_after_def)
  with assms show ?thesis by simp
next
  case (Inr target)
  show ?thesis
  proof (cases target)
    case None
    with Inr have "db_after db (delete_post_body pid db s) = db"
      by (simp add: delete_post_body_def session_delete_def db_after_def)
    with assms show ?thesis by simp
  next
    case (Some post)
    with Inr have "db_after db (delete_post_body pid db s) =
        db\<lparr>blog_posts := filter (\<lambda>q. post_id q \<noteq> post_id post) (blog_posts db),
           comments := map (\<lambda>c. if comment_post_id c = Some (post_id post)
                                  then c\<lparr>comment_post_id := None\<rparr> else c) (comments db)\<rparr>"
      by (simp add: delete_post_body_def session_delete_def db_after_def)
    then show ?thesis using comments_ok_session_delete [OF assms, of post] by simp
  qed
qed

lemma comments_ok_guard:
  assumes "comments_ok db" and "comments_ok (db_after db (f db s))"
  shows "comments_ok (db_after db (login_required (admin_only f) db s))"
  using guard_db_after [of db f s] assms by auto

lemma comments_ok_step:
  assumes "comments_ok db"
  shows "comments_ok (db_after db (dispatch g ud c req db s))"
proof (cases req)
  case (Register form)
  then show ?thesis using comments_ok_register [OF assms] by (simp add: dispatch_def)
next
  case (ShowPost today pid form)
  then show ?thesis using comments_ok_show_post [OF assms] by (simp add: dispatch_def)
next
  case (NewPost today form)
  then show ?thesis
    using comments_ok_guard [where f = "add_new_post_body today form", OF assms comments_ok_add_new_post_body [OF assms]]
    by (simp add: dispatch_def add_new_post_def)
next
  case (EditPost pid form)
  have "comments_ok (db_after db (edit_post_body pid form db s))"
    using assms by (simp add: edit_post_body_unchanged)
  from comments_ok_guard [where f = "edit_post_body pid form", OF assms this] EditPost show ?thesis
    by (simp add: dispatch_def edit_post_def)
next
  case (DeletePost pid)
  then show ?thesis
    using comments_ok_guard [where f = "delete_post_body pid", OF assms comments_ok_delete_post_body [OF assms]]
    by (simp add: dispatch_def delete_post_def)
qed (use assms in \<open>simp_all add: dispatch_def get_all_posts_def login_def logout_def about_def
      contact_def db_after_def split: option.splits\<close>)

lemma reachable_comments_ok: "reachable db \<Longrightarrow> comments_ok db"
proof (induction rule: reachable.induct)
  case initial
  show ?case by (simp add: comments_ok_def create_all_def)
next
  case (request db g ud c req s)
  then show ?case by (simp add: comments_ok_step)
qed

text \<open>
  Against claim C7: Bob, logged in, submits a comment on post 7, which does not exist. The
  comment is stored, and it has no parent post.
\<close>

theorem comment_without_parent_post:
  "current_user db_with_post bob_session = Some bob
   \<and> BlogPost_query_get db_with_post 7 = Inr None
   \<and> show_post march_5 7 nice_comment db_with_post bob_session =
        Inr (db_with_orphan, bob_session, Render ''post.html'' (PostContext None ''March 05, 2024''))
   \<and> comments db_with_orphan = [orphan_comment]
   \<and> comment_post_id orphan_comment = None"
  by code_simp

text \<open>
  Claim C7, amended. In every reachable database each comment has exactly one author, who
  is an existing user, and a parent post that is either an existing post or NULL. A valid
  comment submission by an authenticated user stores exactly one comment, whose author is
  the current user, an existing user: on the id of an existing post its parent is that
  post, which exists when the comment is created; on an id up to \<open>2\<^sup>6\<^sup>3 - 1\<close> that
  refers to no post its parent is NULL; and on a larger id the lookup of line 194 raises
  \<open>OverflowError\<close> and nothing is stored. Every comment submission keeps the invariant.
\<close>

theorem comment_references:
  assumes "reachable db"
  shows "comments_ok db
       \<and> (\<forall>today pid (form::CommentForm) s u.
             comment_validate_on_submit form \<and> current_user db s = Some u \<longrightarrow>
               u \<in> set (users db)
               \<and> (\<forall>p. pid \<le> sqlite_max_integer \<and> select_post db pid = Some p \<longrightarrow>
                     p \<in> set (blog_posts db) \<and> post_id p = pid
                     \<and> db_after db (show_post today pid form db s) =
                         db\<lparr>comments := comments db @
                           [\<lparr>comment_id = next_id (map comment_id (comments db)),
                             comment_author_id = Some (user_id u),
                             comment_post_id = Some (post_id p),
                             comment_text = comment_text_data form\<rparr>]\<rparr>)
               \<and> (pid \<le> sqlite_max_integer \<and> select_post db pid = None \<longrightarrow>
                     db_after db (show_post today pid form db s) =
                       db\<lparr>comments := comments db @
                         [\<lparr>comment_id = next_id (map comment_id (comments db)),
                           comment_author_id = Some (user_id u),
                           comment_post_id = None,
                           comment_text = comment_text_data form\<rparr>]\<rparr>)
               \<and> (sqlite_max_integer < pid \<longrightarrow>
                     show_post today pid form db s = Inl OverflowError
                     \<and> db_after db (show_post today pid form db s) = db))
       \<and> (\<forall>today pid form s.
             comments_ok (db_after db (show_post today pid form db s)))"
proof (intro conjI allI impI)
  show "comments_ok db" by (rule reachable_comments_ok [OF assms])
next
  fix today pid form s
  show "comments_ok (db_after db (show_post today pid form db s))"
    by (rule comments_ok_show_post [OF reachable_comments_ok [OF assms]])
next
  fix today pid and form :: CommentForm and s u
  assume h: "comment_validate_on_submit form \<and> current_user db s = Some u"
  then show "u \<in> set (users db)" using current_user_SomeD [of db s u] by blast
next
  fix today pid and form :: CommentForm and s u p
  assume h: "comment_validate_on_submit form \<and> current_user db s = Some u"
    and q: "pid \<le> sqlite_max_integer \<and> select_post db pid = Some p"
  from q show "p \<in> set (blog_posts db)" using select_post_SomeD [of db pid p] by blast
  from q show "post_id p = pid" using select_post_SomeD [of db pid p] by blast
  from h q show "db_after db (show_post today pid form db s) =
      db\<lparr>comments := comments db @
        [\<lparr>comment_id = next_id (map comment_id (comments db)),
          comment_author_id = Some (user_id u),
          comment_post_id = Some (post_id p),
          comment_text = comment_text_data form\<rparr>]\<rparr>"
    by (simp add: show_post_stores add_comment_def)
next
  fix today pid and form :: CommentForm and s u
  assume h: "comment_validate_on_submit form \<and> current_user db s = Some u"
    and q: "pid \<le> sqlite_max_integer \<and> select_post db pid = None"
  from h q show "db_after db (show_post today pid form db s) =
      db\<lparr>comments := comments db @
        [\<lparr>comment_id = next_id (map comment_id (comments db)),
          comment_author_id = Some (user_id u),
          comment_post_id = None,
          comment_text = comment_text_data form\<rparr>]\<rparr>"
    by (simp add: show_post_stores add_comment_def)
next
  fix today pid and form :: CommentForm and s u
  assume q: "sqlite_max_integer < pid"
  then show "show_post today pid form db s = Inl OverflowError"
    by (rule show_post_overflow)
  then show "db_after db (show_post today pid form db s) = db"
    by (simp add: db_after_def)
qed

text \<open>
  Bob comments on post 1, on the missing post 7 and on post \<open>2\<^sup>6\<^sup>3\<close>. The first comment
  refers to Bob and to post 1, the second to Bob and to no post, the third is not stored;
  the databases with the first and with the second are reachable and satisfy the invariant.
\<close>

lemma bob_comments_on_hello:
  "db_after db_with_post (show_post march_5 1 nice_comment db_with_post bob_session) =
     db_with_comment"
  by code_simp

lemma reachable_db_with_comment: "reachable db_with_comment"
  using reachable.request [OF reachable_db_with_post, of sample_hash unicode_excerpt sample_check
      "ShowPost march_5 1 nice_comment" bob_session]
  by (simp add: dispatch_def bob_comments_on_hello)

theorem comment_references_witness:
  "reachable db_with_comment
   \<and> comments db_with_comment = [bob_comment]
   \<and> comments_ok db_with_comment
   \<and> reachable db_with_post
   \<and> comment_validate_on_submit nice_comment
   \<and> current_user db_with_post bob_session = Some bob
   \<and> bob \<in> set (users db_with_post)
   \<and> (1::int) \<le> sqlite_max_integer
   \<and> select_post db_with_post 1 = Some hello_post
   \<and> hello_post \<in> set (blog_posts db_with_post)
   \<and> db_after db_with_post (show_post march_5 1 nice_comment db_with_post bob_session) =
        db_with_comment
   \<and> comment_author_id bob_comment = Some (user_id bob)
   \<and> comment_post_id bob_comment = Some (post_id hello_post)
   \<and> (7::int) \<le> sqlite_max_integer
   \<and> select_post db_with_post 7 = None
   \<and> db_after db_with_post (show_post march_5 7 nice_comment db_with_post bob_session) =
        db_with_orphan
   \<and> comments db_with_orphan = [orphan_comment]
   \<and> comment_author_id orphan_comment = Some (user_id bob)
   \<and> comment_post_id orphan_comment = None
   \<and> comments_ok db_with_orphan
   \<and> sqlite_max_integer < 9223372036854775808
   \<and> show_post march_5 9223372036854775808 nice_comment db_with_post bob_session =
        Inl OverflowError"
proof -
  have v: "comment_validate_on_submit nice_comment" by (simp add: nice_comment_def)
  have cs: "comments db_with_comment = [bob_comment]" by (simp add: db_with_comment_def)
  have os: "comments db_with_orphan = [orphan_comment]" by (simp add: db_with_orphan_def)
  have r1: "(1::int) \<le> sqlite_max_integer" by (simp add: sqlite_max_integer_def)
  have r7: "(7::int) \<le> sqlite_max_integer" by (simp add: sqlite_max_integer_def)
  have big: "sqlite_max_integer < 9223372036854775808" by (simp add: sqlite_max_integer_def)
  have q7: "select_post db_with_post 7 = None" by code_simp
  have ba: "comment_author_id bob_comment = Some (user_id bob)" by code_simp
  have bp: "comment_post_id bob_comment = Some (post_id hello_post)" by code_simp
  have oa: "comment_author_id orphan_comment = Some (user_id bob)" by code_simp
  have op: "comment_post_id orphan_comment = None" by (simp add: orphan_comment_def)
  have e1: "db_with_post\<lparr>comments := comments db_with_post @
       [\<lparr>comment_id = next_id (map comment_id (comments db_with_post)),
         comment_author_id = Some (user_id bob), comment_post_id = Some (post_id hello_post),
         comment_text = comment_text_data nice_comment\<rparr>]\<rparr> = db_with_comment"
    by code_simp
  have e7: "db_with_post\<lparr>comments := comments db_with_post @
       [\<lparr>comment_id = next_id (map comment_id (comments db_with_post)),
         comment_author_id = Some (user_id bob), comment_post_id = None,
         comment_text = comment_text_data nice_comment\<rparr>]\<rparr> = db_with_orphan"
    by code_simp
  from comment_references [OF reachable_db_with_comment]
  have ok: "comments_ok db_with_comment" by (rule conjunct1)
  note t = comment_references [OF reachable_db_with_post]
  from t have sub: "\<forall>today pid (form::CommentForm) s u.
             comment_validate_on_submit form \<and> current_user db_with_post s = Some u \<longrightarrow>
               u \<in> set (users db_with_post)
               \<and> (\<forall>p. pid \<le> sqlite_max_integer \<and> select_post db_with_post pid = Some p \<longrightarrow>
                     p \<in> set (blog_posts db_with_post) \<and> post_id p = pid
                     \<and> db_after db_with_post (show_post today pid form db_with_post s) =
                         db_with_post\<lparr>comments := comments db_with_post @
                           [\<lparr>comment_id = next_id (map comment_id (comments db_with_post)),
                             comment_author_id = Some (user_id u),
                             comment_post_id = Some (post_id p),
                             comment_text = comment_text_data form\<rparr>]\<rparr>)
               \<and> (pid \<le> sqlite_max_integer \<and> select_post db_with_post pid = None \<longrightarrow>
                     db_after db_with_post (show_post today pid form db_with_post s) =
                       db_with_post\<lparr>comments := comments db_with_post @
                         [\<lparr>comment_id = next_id (map comment_id (comments db_with_post)),
                           comment_author_id = Some (user_id u),
                           comment_post_id = None,
                           comment_text = comment_text_data form\<rparr>]\<rparr>)
               \<and> (sqlite_max_integer < pid \<longrightarrow>
                     show_post today pid form db_with_post s = Inl OverflowError
                     \<and> db_after db_with_post (show_post today pid form db_with_post s) =
                         db_with_post)"
    by (elim conjE)
  have hyp: "comment_validate_on_submit nice_comment
      \<and> current_user db_with_post bob_session = Some bob"
    by (intro conjI) (fact v, fact current_user_bob_post)
  note at1 = sub [rule_format, of nice_comment bob_session bob 1 march_5, OF hyp]
  note at7 = sub [rule_format, of nice_comment bob_session bob 7 march_5, OF hyp]
  note atbig = sub [rule_format, of nice_comment bob_session bob 9223372036854775808 march_5,
      OF hyp]
  from at1 have mem: "bob \<in> set (users db_with_post)" by (rule conjunct1)
  have h1: "(1::int) \<le> sqlite_max_integer \<and> select_post db_with_post 1 = Some hello_post"
    by (intro conjI) (fact r1, fact select_hello_post)
  from at1 [THEN conjunct2, THEN conjunct1, rule_format, OF h1]
  have pm: "hello_post \<in> set (blog_posts db_with_post)"
    and s1: "db_after db_with_post (show_post march_5 1 nice_comment db_with_post bob_session) =
       db_with_post\<lparr>comments := comments db_with_post @
         [\<lparr>comment_id = next_id (map comment_id (comments db_with_post)),
           comment_author_id = Some (user_id bob), comment_post_id = Some (post_id hello_post),
           comment_text = comment_text_data nice_comment\<rparr>]\<rparr>"
    by blast+
  from s1 have s1': "db_after db_with_post
      (show_post march_5 1 nice_comment db_with_post bob_session) = db_with_comment"
    by (simp only: e1)
  have h7: "(7::int) \<le> sqlite_max_integer \<and> select_post db_with_post 7 = None"
    by (intro conjI) (fact r7, fact q7)
  from at7 [THEN conjunct2, THEN conjunct2, THEN conjunct1, rule_format, OF h7]
  have "db_after db_with_post (show_post march_5 7 nice_comment db_with_post bob_session) =
       db_with_post\<lparr>comments := comments db_with_post @
         [\<lparr>comment_id = next_id (map comment_id (comments db_with_post)),
           comment_author_id = Some (user_id bob), comment_post_id = None,
           comment_text = comment_text_data nice_comment\<rparr>]\<rparr>" .
  then have s7: "db_after db_with_post
      (show_post march_5 7 nice_comment db_with_post bob_session) = db_with_orphan"
    by (simp only: e7)
  from atbig [THEN conjunct2, THEN conjunct2, THEN conjunct2, rule_format, OF big]
  have sb: "show_post march_5 9223372036854775808 nice_comment db_with_post bob_session =
      Inl OverflowError"
    by (rule conjunct1)
  from t have "\<forall>today pid form s.
      comments_ok (db_after db_with_post (show_post today pid form db_with_post s))"
    by (elim conjE)
  then have "comments_ok (db_after db_with_post
      (show_post march_5 7 nice_comment db_with_post bob_session))"
    by (elim allE)
  then have oko: "comments_ok db_with_orphan" by (simp only: s7)
  show ?thesis
    by (intro conjI) (fact reachable_db_with_comment, fact cs, fact ok,
        fact reachable_db_with_post, fact v, fact current_user_bob_post, fact mem, fact r1,
        fact select_hello_post, fact pm, fact s1', fact ba, fact bp, fact r7, fact q7,
        fact s7, fact os, fact oa, fact op, fact oko, fact big, fact sb)
qed

end
